theory Spec2Isabelle
  imports Complex_Main
begin

section \<open>FastRegrid: data model (types.h)\<close>

text \<open>
  A C++ \<^verbatim>\<open>double\<close> is modelled by a \<^typ>\<open>real\<close>: arithmetic is exact and every value
  is finite (no NaN, no infinity, no rounding).  The one exception is \<^verbatim>\<open>adjust_longitude\<close>,
  whose loops stop or not depending on rounding: there the binary64 rounding of each shift
  is written out.  A C++ \<^verbatim>\<open>int\<close> is an \<^typ>\<open>int\<close>; the conversions to \<^verbatim>\<open>size_t\<close>
  that the code performs are written out where they occur.
\<close>

record GridPoint =
  longitude :: real
  latitude :: real

record SpatialData =
  gridPoint :: GridPoint
  time_step :: int
  vals :: "real list"

datatype InterpolationMethod = NEAREST_NEIGHBOR | INVERSE_DISTANCE_WEIGHTED

datatype DistanceMetric = EUCLIDEAN | HAVERSINE

datatype DataLayout = YEAR_BY_YEAR | GRID_BY_TIME

text \<open>
  Every \<^verbatim>\<open>throw\<close> of the sources is one constructor: \<open>InvalidArgument\<close> is
  \<^verbatim>\<open>std::invalid_argument\<close> with its message; the others are the
  \<^verbatim>\<open>std::runtime_error\<close>s, told apart by their message.
\<close>

datatype error =
    InvalidArgument string
  | EmptyInput
  | InconsistentValueSizes
  | NoSourceForTarget real real
  | InvalidTargetIndex
  | InvalidFallbackMapping
  | NoInterpolation InterpolationMethod

section \<open>Configuration (config.h)\<close>

record RegridConfig =
  interp_method :: InterpolationMethod
  distance_metric :: DistanceMetric
  data_layout :: DataLayout
  radius :: real
  idw_power :: real
  max_points :: int
  min_points :: int
  adjust_longitude_opt :: bool
  precision :: int
  verbose :: bool
  write_mappings :: bool
  nn_mappings_file :: string
  idw_mappings_file :: string
  chunk_size :: nat
  output_path :: string

text \<open>The member initialisers of \<^verbatim>\<open>struct RegridConfig\<close>, which a default-constructed
  builder holds.\<close>

definition RegridConfigBuilder :: RegridConfig where
  "RegridConfigBuilder =
     \<lparr> interp_method = INVERSE_DISTANCE_WEIGHTED,
       distance_metric = HAVERSINE,
       data_layout = GRID_BY_TIME,
       radius = 100,
       idw_power = 2,
       max_points = 5,
       min_points = 5,
       adjust_longitude_opt = True,
       precision = 5,
       verbose = False,
       write_mappings = False,
       nn_mappings_file = ''nn_mappings.txt'',
       idw_mappings_file = ''idw_mappings.txt'',
       chunk_size = 1000,
       output_path = ''./'' \<rparr>"

definition set_interpolation :: "InterpolationMethod \<Rightarrow> RegridConfig \<Rightarrow> error + RegridConfig" where
  "set_interpolation m b = Inr (b\<lparr>interp_method := m\<rparr>)"

definition set_distance_metric :: "DistanceMetric \<Rightarrow> RegridConfig \<Rightarrow> error + RegridConfig" where
  "set_distance_metric m b = Inr (b\<lparr>distance_metric := m\<rparr>)"

definition set_data_layout :: "DataLayout \<Rightarrow> RegridConfig \<Rightarrow> error + RegridConfig" where
  "set_data_layout l b = Inr (b\<lparr>data_layout := l\<rparr>)"

definition set_radius :: "real \<Rightarrow> RegridConfig \<Rightarrow> error + RegridConfig" where
  "set_radius r b =
     (if r < 0 then Inl (InvalidArgument ''Radius must be non-negative'')
      else Inr (b\<lparr>radius := r\<rparr>))"

definition set_power :: "real \<Rightarrow> RegridConfig \<Rightarrow> error + RegridConfig" where
  "set_power p b =
     (if p \<le> 0 then Inl (InvalidArgument ''Power must be positive'')
      else Inr (b\<lparr>idw_power := p\<rparr>))"

definition set_max_points :: "int \<Rightarrow> RegridConfig \<Rightarrow> error + RegridConfig" where
  "set_max_points n b =
     (if n \<le> 0 then Inl (InvalidArgument ''Max points must be positive'')
      else let b' = b\<lparr>max_points := n\<rparr>
           in Inr (if min_points b' > n then b'\<lparr>min_points := n\<rparr> else b'))"

definition set_min_points :: "int \<Rightarrow> RegridConfig \<Rightarrow> error + RegridConfig" where
  "set_min_points n b =
     (if n \<le> 0 then Inl (InvalidArgument ''Min points must be positive'')
      else if n > max_points b then Inl (InvalidArgument ''Min points cannot exceed max points'')
      else Inr (b\<lparr>min_points := n\<rparr>))"

definition set_adjust_longitude :: "bool \<Rightarrow> RegridConfig \<Rightarrow> error + RegridConfig" where
  "set_adjust_longitude a b = Inr (b\<lparr>adjust_longitude_opt := a\<rparr>)"

definition set_precision :: "int \<Rightarrow> RegridConfig \<Rightarrow> error + RegridConfig" where
  "set_precision p b =
     (if p < 0 then Inl (InvalidArgument ''Precision must be non-negative'')
      else Inr (b\<lparr>precision := p\<rparr>))"

definition set_verbose :: "bool \<Rightarrow> RegridConfig \<Rightarrow> error + RegridConfig" where
  "set_verbose v b = Inr (b\<lparr>verbose := v\<rparr>)"

definition set_write_mappings :: "bool \<Rightarrow> RegridConfig \<Rightarrow> error + RegridConfig" where
  "set_write_mappings w b = Inr (b\<lparr>write_mappings := w\<rparr>)"

definition set_nn_mappings_file :: "string \<Rightarrow> RegridConfig \<Rightarrow> error + RegridConfig" where
  "set_nn_mappings_file f b =
     (if f = [] then Inl (InvalidArgument ''Nearest Neighbor mappings filename cannot be empty'')
      else Inr (b\<lparr>nn_mappings_file := f\<rparr>))"

definition set_idw_mappings_file :: "string \<Rightarrow> RegridConfig \<Rightarrow> error + RegridConfig" where
  "set_idw_mappings_file f b =
     (if f = [] then Inl (InvalidArgument ''IDW mappings filename cannot be empty'')
      else Inr (b\<lparr>idw_mappings_file := f\<rparr>))"

definition set_chunk_size :: "nat \<Rightarrow> RegridConfig \<Rightarrow> error + RegridConfig" where
  "set_chunk_size n b =
     (if n = 0 then Inl (InvalidArgument ''Chunk size must be positive'')
      else Inr (b\<lparr>chunk_size := n\<rparr>))"

definition set_output_path :: "string \<Rightarrow> RegridConfig \<Rightarrow> error + RegridConfig" where
  "set_output_path p b = Inr (b\<lparr>output_path := p\<rparr>)"

definition build :: "RegridConfig \<Rightarrow> RegridConfig" where
  "build b = b"

text \<open>A setter call with its argument, so that sequences of calls can be quantified over.\<close>

datatype setter_call =
    Set_interpolation InterpolationMethod
  | Set_distance_metric DistanceMetric
  | Set_data_layout DataLayout
  | Set_radius real
  | Set_power real
  | Set_max_points int
  | Set_min_points int
  | Set_adjust_longitude bool
  | Set_precision int
  | Set_verbose bool
  | Set_write_mappings bool
  | Set_nn_mappings_file string
  | Set_idw_mappings_file string
  | Set_chunk_size nat
  | Set_output_path string

fun call :: "setter_call \<Rightarrow> RegridConfig \<Rightarrow> error + RegridConfig" where
  "call (Set_interpolation m) b = set_interpolation m b"
| "call (Set_distance_metric m) b = set_distance_metric m b"
| "call (Set_data_layout l) b = set_data_layout l b"
| "call (Set_radius r) b = set_radius r b"
| "call (Set_power p) b = set_power p b"
| "call (Set_max_points n) b = set_max_points n b"
| "call (Set_min_points n) b = set_min_points n b"
| "call (Set_adjust_longitude a) b = set_adjust_longitude a b"
| "call (Set_precision p) b = set_precision p b"
| "call (Set_verbose v) b = set_verbose v b"
| "call (Set_write_mappings w) b = set_write_mappings w b"
| "call (Set_nn_mappings_file f) b = set_nn_mappings_file f b"
| "call (Set_idw_mappings_file f) b = set_idw_mappings_file f b"
| "call (Set_chunk_size n) b = set_chunk_size n b"
| "call (Set_output_path p) b = set_output_path p b"

text \<open>A chain of calls in which the first exception propagates: the chain yields a builder
  only when every call succeeded.\<close>

fun calls :: "setter_call list \<Rightarrow> RegridConfig \<Rightarrow> error + RegridConfig" where
  "calls [] b = Inr b"
| "calls (c # cs) b = (case call c b of Inl e \<Rightarrow> Inl e | Inr b' \<Rightarrow> calls cs b')"

text \<open>A sequence of calls whose exceptions the caller catches: a setter throws before it
  assigns, so a failed call leaves the builder as it was.\<close>

fun calls_caught :: "setter_call list \<Rightarrow> RegridConfig \<Rightarrow> RegridConfig" where
  "calls_caught [] b = b"
| "calls_caught (c # cs) b =
     (case call c b of Inl e \<Rightarrow> calls_caught cs b | Inr b' \<Rightarrow> calls_caught cs b')"

text \<open>What the builder is meant to guarantee of a configuration.\<close>

definition validated :: "RegridConfig \<Rightarrow> bool" where
  "validated c \<longleftrightarrow>
     0 \<le> radius c \<and> 0 < idw_power c \<and> 0 < max_points c \<and> 0 < min_points c \<and>
     chunk_size c \<noteq> 0 \<and> nn_mappings_file c \<noteq> [] \<and> idw_mappings_file c \<noteq> [] \<and>
     min_points c \<le> max_points c"

section \<open>Geodesy primitives (utils.h)\<close>

definition to_radians :: "real \<Rightarrow> real" where
  "to_radians degrees = degrees * pi / 180"

definition km_to_degrees :: "real \<Rightarrow> real \<Rightarrow> error + real" where
  "km_to_degrees km lat =
     (if km < 0 then Inl (InvalidArgument ''Distance in km must be non-negative'')
      else if \<bar>lat\<bar> > 90 then Inl (InvalidArgument ''Latitude must be in [-90, 90]'')
      else let cos_lat = cos (to_radians lat);
               cos_lat = (if \<bar>cos_lat\<bar> < 1 / 10 ^ 10 then 1 / 10 ^ 10 else cos_lat)
           in Inr (km / (111.32 * cos_lat)))"

text \<open>\<^verbatim>\<open>std::atan2(y, x)\<close> on finite arguments: the angle of the point \<open>(x, y)\<close>, in
  \<open>(-\<pi>, \<pi>]\<close>.\<close>

definition atan2 :: "real \<Rightarrow> real \<Rightarrow> real" where
  "atan2 y x =
     (if 0 < x then arctan (y / x)
      else if x < 0 then (if 0 \<le> y then arctan (y / x) + pi else arctan (y / x) - pi)
      else if 0 < y then pi / 2
      else if y < 0 then - (pi / 2)
      else 0)"

text \<open>\<^verbatim>\<open>compute_distance\<close>: kilometres for \<open>HAVERSINE\<close>, degrees for \<open>EUCLIDEAN\<close>.  The
  final \<^verbatim>\<open>else\<close> of the source (unknown metric) cannot be reached with one of the two
  enumerators.  For accepted coordinates the arguments of the two square roots of the
  haversine formula are never negative (lemmas \<open>haversine_a_nonneg\<close> and
  \<open>haversine_a_le_one\<close> below).\<close>

definition compute_distance ::
    "real \<Rightarrow> real \<Rightarrow> real \<Rightarrow> real \<Rightarrow> DistanceMetric \<Rightarrow> error + real" where
  "compute_distance lon1 lat1 lon2 lat2 metric =
     (if \<bar>lat1\<bar> > 90 \<or> \<bar>lat2\<bar> > 90
        then Inl (InvalidArgument ''Latitudes must be in [-90, 90]'')
      else if \<bar>lon1\<bar> > 360 \<or> \<bar>lon2\<bar> > 360
        then Inl (InvalidArgument ''Longitudes must be in [-360, 360]'')
      else (case metric of
        HAVERSINE \<Rightarrow>
          let lat1_rad = to_radians lat1;
              lat2_rad = to_radians lat2;
              delta_lat = to_radians (lat2 - lat1);
              delta_lon = to_radians (lon2 - lon1);
              a = sin (delta_lat / 2) * sin (delta_lat / 2) +
                  cos lat1_rad * cos lat2_rad * sin (delta_lon / 2) * sin (delta_lon / 2);
              c = 2 * atan2 (sqrt a) (sqrt (1 - a))
          in Inr (6371 * c)
      | EUCLIDEAN \<Rightarrow>
          let delta_lon = lon2 - lon1;
              delta_lat = lat2 - lat1
          in Inr (sqrt (delta_lon * delta_lon + delta_lat * delta_lat))))"

subsection \<open>Longitude normalisation\<close>

text \<open>
  \<^verbatim>\<open>adjust_longitude\<close> is two loops that shift by 360 until the value is in range.
  Whether they stop depends on what \<^verbatim>\<open>lon -= 360.0\<close> computes, so the binary64
  arithmetic is written out: the exact difference is rounded to the nearest value with a
  53-bit significand, ties to the even significand (the default rounding of IEEE 754).
  \<open>binade x\<close> is the exponent of the power of two at or below \<open>\<bar>x\<bar>\<close>; the spacing of
  binary64 values around \<open>x\<close> is \<open>2 powi (binade x - 52)\<close>, and \<open>2 powi (- 1074)\<close> for
  subnormal values.  Overflow cannot arise here: for a finite \<open>lon\<close> the exact
  \<open>lon \<plusminus> 360\<close> stays below the threshold at which rounding gives infinity.
\<close>

definition binade :: "real \<Rightarrow> int" where
  "binade x = \<lfloor>log 2 \<bar>x\<bar>\<rfloor>"

definition round_half_even :: "real \<Rightarrow> int" where
  "round_half_even r =
     (let f = \<lfloor>r\<rfloor> in
      if r - of_int f < 1 / 2 then f
      else if r - of_int f > 1 / 2 then f + 1
      else if even f then f else f + 1)"

definition b64_round :: "real \<Rightarrow> real" where
  "b64_round x =
     (if x = 0 then 0
      else let e = max (binade x - 52) (- 1074)
           in of_int (round_half_even (x / 2 powi e)) * 2 powi e)"

text \<open>The first loop, \<^verbatim>\<open>while (lon > 180.0) lon -= 360.0\<close>; \<open>None\<close> is a loop that
  never exits.\<close>

partial_function (option) shift_down :: "real \<Rightarrow> real option" where
  "shift_down lon = (if lon > 180 then shift_down (b64_round (lon - 360)) else Some lon)"

text \<open>The second loop, \<^verbatim>\<open>while (lon < -180.0) lon += 360.0\<close>.\<close>

partial_function (option) shift_up :: "real \<Rightarrow> real option" where
  "shift_up lon = (if lon < - 180 then shift_up (b64_round (lon + 360)) else Some lon)"

definition adjust_longitude :: "real \<Rightarrow> real option" where
  "adjust_longitude lon = Option.bind (shift_down lon) shift_up"

text \<open>The same two loops in exact arithmetic, where each shift really changes the value by
  360.\<close>

function shift_down_exact :: "real \<Rightarrow> real" where
  "shift_down_exact lon = (if lon > 180 then shift_down_exact (lon - 360) else lon)"
  by pat_completeness auto
termination
proof (relation "measure (\<lambda>lon. nat \<lceil>lon / 360\<rceil>)")
  show "wf (measure (\<lambda>lon::real. nat \<lceil>lon / 360\<rceil>))" by simp
next
  fix lon :: real
  assume h: "180 < lon"
  have "(lon - 360) / 360 = lon / 360 - 1" by (simp add: field_simps)
  then have "\<lceil>(lon - 360) / 360\<rceil> = \<lceil>lon / 360\<rceil> - 1"
    by (simp only: ceiling_diff_one)
  moreover have "0 < \<lceil>lon / 360\<rceil>" using h by (simp add: ceiling_less_iff)
  ultimately have "nat \<lceil>(lon - 360) / 360\<rceil> < nat \<lceil>lon / 360\<rceil>" by linarith
  then show "(lon - 360, lon) \<in> measure (\<lambda>lon. nat \<lceil>lon / 360\<rceil>)"
    by (simp only: in_measure)
qed

function shift_up_exact :: "real \<Rightarrow> real" where
  "shift_up_exact lon = (if lon < - 180 then shift_up_exact (lon + 360) else lon)"
  by pat_completeness auto
termination
proof (relation "measure (\<lambda>lon. nat \<lceil>- lon / 360\<rceil>)")
  show "wf (measure (\<lambda>lon::real. nat \<lceil>- lon / 360\<rceil>))" by simp
next
  fix lon :: real
  assume h: "lon < - 180"
  have "- (lon + 360) / 360 = - lon / 360 - 1" by (simp add: field_simps)
  then have "\<lceil>- (lon + 360) / 360\<rceil> = \<lceil>- lon / 360\<rceil> - 1"
    by (simp only: ceiling_diff_one)
  moreover have "0 < \<lceil>- lon / 360\<rceil>" using h by (simp add: ceiling_less_iff)
  ultimately have "nat \<lceil>- (lon + 360) / 360\<rceil> < nat \<lceil>- lon / 360\<rceil>" by linarith
  then show "(lon + 360, lon) \<in> measure (\<lambda>lon. nat \<lceil>- lon / 360\<rceil>)"
    by (simp only: in_measure)
qed

definition adjust_longitude_exact :: "real \<Rightarrow> real" where
  "adjust_longitude_exact lon = shift_up_exact (shift_down_exact lon)"

section \<open>Spatial mapper (spatial_index.h)\<close>

text \<open>The diagnostics written to \<^verbatim>\<open>std::cerr\<close> under \<open>verbose\<close> change no result and are
  left out.\<close>

text \<open>\<^verbatim>\<open>std::numeric_limits<double>::max()\<close>.\<close>

definition DBL_MAX :: real where
  "DBL_MAX = 2 ^ 1024 - 2 ^ 971"

text \<open>\<^verbatim>\<open>static_cast<size_t>\<close> of an \<^verbatim>\<open>int\<close>, with a 64-bit \<^verbatim>\<open>size_t\<close>: a negative value
  wraps around.\<close>

definition size_t_of_int :: "int \<Rightarrow> nat" where
  "size_t_of_int i = nat (i mod 2 ^ 64)"

text \<open>An NN mapping row \<open>(target_lon, target_lat, source_lon, source_lat, dist_km, t_idx)\<close>,
  a neighbour \<open>(source_lon, source_lat, distance)\<close> and an IDW mapping row
  \<open>(target_lon, target_lat, neighbors, t_idx, is_fallback)\<close>, tuples as in the source.\<close>

type_synonym nn_mapping = "real \<times> real \<times> real \<times> real \<times> real \<times> nat"

type_synonym neighbor = "real \<times> real \<times> real"

type_synonym idw_mapping = "real \<times> real \<times> neighbor list \<times> nat \<times> bool"

text \<open>The constructor borrows the source points and the configuration, and rejects an empty
  source list.\<close>

definition SpatialIndex ::
    "SpatialData list \<Rightarrow> RegridConfig \<Rightarrow> error + SpatialData list \<times> RegridConfig" where
  "SpatialIndex source_points config =
     (if source_points = [] then Inl EmptyInput else Inr (source_points, config))"

text \<open>The distance from a target to a source under the metric.\<close>

definition target_distance :: "DistanceMetric \<Rightarrow> SpatialData \<Rightarrow> SpatialData \<Rightarrow> error + real" where
  "target_distance metric target source =
     compute_distance (longitude (gridPoint target)) (latitude (gridPoint target))
       (longitude (gridPoint source)) (latitude (gridPoint source)) metric"

text \<open>The reported distance in km: the winning distance itself for \<open>HAVERSINE\<close>, scaled by
  the length of a degree at the target's latitude otherwise.\<close>

definition dist_km :: "DistanceMetric \<Rightarrow> SpatialData \<Rightarrow> real \<Rightarrow> real" where
  "dist_km metric target d =
     (if metric = HAVERSINE then d
      else d * 111.32 * cos (to_radians (latitude (gridPoint target))))"

text \<open>The scan for the nearest source; the state is
  \<open>(min_distance, source_lon, source_lat)\<close>.  A strictly smaller distance replaces the
  winner, so of several sources at the least distance the first stays.\<close>

fun nn_scan ::
    "DistanceMetric \<Rightarrow> SpatialData \<Rightarrow> SpatialData list \<Rightarrow> real \<times> real \<times> real
      \<Rightarrow> error + real \<times> real \<times> real" where
  "nn_scan metric target [] st = Inr st"
| "nn_scan metric target (source # rest) (min_distance, source_lon, source_lat) =
     (case target_distance metric target source of
        Inl e \<Rightarrow> Inl e
      | Inr distance \<Rightarrow>
          nn_scan metric target rest
            (if distance < min_distance
             then (distance, longitude (gridPoint source), latitude (gridPoint source))
             else (min_distance, source_lon, source_lat)))"




text \<open>The first loop of \<^verbatim>\<open>find_idw_neighbors\<close>: the sources that pass the admission test,
  in source order, with the distance in the metric's own unit.\<close>

fun idw_candidates ::
    "RegridConfig \<Rightarrow> SpatialData \<Rightarrow> SpatialData list \<Rightarrow> error + neighbor list" where
  "idw_candidates config target [] = Inr []"
| "idw_candidates config target (source # rest) =
     (case target_distance (distance_metric config) target source of
        Inl e \<Rightarrow> Inl e
      | Inr distance \<Rightarrow>
          if distance_metric config = EUCLIDEAN then
            (case km_to_degrees (radius config) (latitude (gridPoint target)) of
               Inl e \<Rightarrow> Inl e
             | Inr radius_deg \<Rightarrow>
                 (case idw_candidates config target rest of
                    Inl e \<Rightarrow> Inl e
                  | Inr neighbors \<Rightarrow>
                      Inr (if distance \<le> radius_deg
                           then (longitude (gridPoint source), latitude (gridPoint source),
                                 distance) # neighbors
                           else neighbors)))
          else
            (case idw_candidates config target rest of
               Inl e \<Rightarrow> Inl e
             | Inr neighbors \<Rightarrow>
                 Inr (if distance \<le> radius config
                      then (longitude (gridPoint source), latitude (gridPoint source),
                            distance) # neighbors
                      else neighbors)))"

text \<open>\<^verbatim>\<open>std::sort\<close> by the distance component.  The standard leaves the order of
  neighbours at equal distance open; the model keeps them in source order.\<close>

definition distance_of :: "neighbor \<Rightarrow> real" where
  "distance_of n = (case n of (lon, lat, d) \<Rightarrow> d)"

definition sort_by_distance :: "neighbor list \<Rightarrow> neighbor list" where
  "sort_by_distance neighbors = sort_key distance_of neighbors"

text \<open>The body of the loop over targets in \<^verbatim>\<open>find_idw_neighbors\<close>.\<close>

definition idw_mapping_of ::
    "RegridConfig \<Rightarrow> SpatialData list \<Rightarrow> SpatialData \<Rightarrow> nat \<Rightarrow> error + idw_mapping" where
  "idw_mapping_of config source_points target t_idx =
     (case idw_candidates config target source_points of
        Inl e \<Rightarrow> Inl e
      | Inr neighbors \<Rightarrow>
          if length neighbors < size_t_of_int (min_points config) then
            (case nn_scan (distance_metric config) target source_points (DBL_MAX, 0, 0) of
               Inl e \<Rightarrow> Inl e
             | Inr (min_distance, source_lon, source_lat) \<Rightarrow>
                 if min_distance \<noteq> DBL_MAX
                 then Inr (longitude (gridPoint target), latitude (gridPoint target),
                           [(source_lon, source_lat,
                             dist_km (distance_metric config) target min_distance)],
                           t_idx, True)
                 else Inl (NoSourceForTarget (longitude (gridPoint target))
                             (latitude (gridPoint target))))
          else
            let sorted = sort_by_distance neighbors;
                kept = (if length sorted > size_t_of_int (max_points config)
                        then take (size_t_of_int (max_points config)) sorted
                        else sorted);
                in_km = (if distance_metric config = EUCLIDEAN
                         then map (\<lambda>(lon, lat, d).
                                (lon, lat, d * 111.32 * cos (to_radians (latitude (gridPoint target)))))
                              kept
                         else kept)
            in if in_km = []
               then Inl (NoSourceForTarget (longitude (gridPoint target))
                           (latitude (gridPoint target)))
               else Inr (longitude (gridPoint target), latitude (gridPoint target),
                         in_km, t_idx, False))"

fun idw_mappings_from ::
    "RegridConfig \<Rightarrow> SpatialData list \<Rightarrow> SpatialData list \<Rightarrow> nat \<Rightarrow> error + idw_mapping list" where
  "idw_mappings_from config source_points [] t_idx = Inr []"
| "idw_mappings_from config source_points (target # rest) t_idx =
     (case idw_mapping_of config source_points target t_idx of
        Inl e \<Rightarrow> Inl e
      | Inr m \<Rightarrow>
          (case idw_mappings_from config source_points rest (Suc t_idx) of
             Inl e \<Rightarrow> Inl e
           | Inr ms \<Rightarrow> Inr (m # ms)))"

definition find_idw_neighbors ::
    "RegridConfig \<Rightarrow> SpatialData list \<Rightarrow> SpatialData list \<Rightarrow> error + idw_mapping list" where
  "find_idw_neighbors config source_points target_points =
     idw_mappings_from config source_points target_points 0"

text \<open>The admission test in the words of the specification: under \<open>HAVERSINE\<close> a source is
  admitted if its distance is at most the radius, both in km; under \<open>EUCLIDEAN\<close> if its
  distance in degrees is at most \<open>km_to_degrees\<close> of the radius at the target's latitude.\<close>

definition admitted :: "RegridConfig \<Rightarrow> SpatialData \<Rightarrow> SpatialData \<Rightarrow> bool" where
  "admitted config target source =
     (case target_distance (distance_metric config) target source of
        Inl e \<Rightarrow> False
      | Inr d \<Rightarrow>
          (case distance_metric config of
             HAVERSINE \<Rightarrow> d \<le> radius config
           | EUCLIDEAN \<Rightarrow>
               (case km_to_degrees (radius config) (latitude (gridPoint target)) of
                  Inl e \<Rightarrow> False
                | Inr radius_deg \<Rightarrow> d \<le> radius_deg)))"


text \<open>The first-seen nearest source in the words of the specification: the source at
  position \<open>k\<close> is at distance \<open>d\<close>, no source is closer, and every source before it is
  strictly farther.\<close>

definition no_closer :: "DistanceMetric \<Rightarrow> SpatialData \<Rightarrow> real \<Rightarrow> SpatialData \<Rightarrow> bool" where
  "no_closer metric target d source =
     (case target_distance metric target source of Inl e \<Rightarrow> False | Inr d' \<Rightarrow> d \<le> d')"

definition farther :: "DistanceMetric \<Rightarrow> SpatialData \<Rightarrow> real \<Rightarrow> SpatialData \<Rightarrow> bool" where
  "farther metric target d source =
     (case target_distance metric target source of Inl e \<Rightarrow> False | Inr d' \<Rightarrow> d < d')"

definition first_nearest ::
    "DistanceMetric \<Rightarrow> SpatialData \<Rightarrow> SpatialData list \<Rightarrow> nat \<Rightarrow> real \<Rightarrow> bool" where
  "first_nearest metric target source_points k d \<longleftrightarrow>
     k < length source_points \<and>
     target_distance metric target (source_points ! k) = Inr d \<and>
     list_all (no_closer metric target d) source_points \<and>
     list_all (farther metric target d) (take k source_points)"

section \<open>Interpolator (interpolation.h)\<close>

text \<open>The constructor rejects an empty source list and value vectors of differing
  length.\<close>

definition Interpolator ::
    "SpatialData list \<Rightarrow> RegridConfig \<Rightarrow> error + SpatialData list \<times> RegridConfig" where
  "Interpolator source_points config =
     (if source_points = [] then Inl EmptyInput
      else if list_ex (\<lambda>point. length (vals point) \<noteq> length (vals (source_points ! 0)))
                source_points
        then Inl InconsistentValueSizes
      else Inr (source_points, config))"

text \<open>Source resolution: the test that a source record is the one a mapping names, by
  coordinates within \<open>1e-6\<close> and equal time step.\<close>

definition matches :: "SpatialData \<Rightarrow> real \<Rightarrow> real \<Rightarrow> int \<Rightarrow> bool" where
  "matches src source_lon source_lat t \<longleftrightarrow>
     \<bar>longitude (gridPoint src) - source_lon\<bar> < 1 / 10 ^ 6 \<and>
     \<bar>latitude (gridPoint src) - source_lat\<bar> < 1 / 10 ^ 6 \<and>
     time_step src = t"

text \<open>\<^verbatim>\<open>find_and_copy_source_values\<close>: \<open>Some\<close> is the return value \<^verbatim>\<open>true\<close> together with
  the updated output record, \<open>None\<close> is \<^verbatim>\<open>false\<close>.  The first matching source wins.\<close>

definition find_and_copy_source_values ::
    "SpatialData list \<Rightarrow> SpatialData \<Rightarrow> real \<Rightarrow> real \<Rightarrow> SpatialData \<Rightarrow> SpatialData option" where
  "find_and_copy_source_values source_points target source_lon source_lat interpolated =
     (case find (\<lambda>src. matches src source_lon source_lat (time_step target)) source_points of
        Some src \<Rightarrow> Some (interpolated\<lparr>vals := vals src\<rparr>)
      | None \<Rightarrow> None)"

text \<open>Both interpolation functions are a loop over the mappings whose body either throws,
  or leaves the result as it is, or appends one record to it.\<close>

fun run_mappings ::
    "('m \<Rightarrow> error + SpatialData option) \<Rightarrow> 'm list \<Rightarrow> SpatialData list
      \<Rightarrow> error + SpatialData list" where
  "run_mappings body [] result = Inr result"
| "run_mappings body (mapping # rest) result =
     (case body mapping of
        Inl e \<Rightarrow> Inl e
      | Inr None \<Rightarrow> run_mappings body rest result
      | Inr (Some interpolated) \<Rightarrow> run_mappings body rest (result @ [interpolated]))"

text \<open>The loop body of \<^verbatim>\<open>interpolate_nearest_neighbor\<close>.\<close>

fun nearest_neighbor_body ::
    "SpatialData list \<Rightarrow> SpatialData list \<Rightarrow> nn_mapping \<Rightarrow> error + SpatialData option" where
  "nearest_neighbor_body source_points target_points
       (target_lon, target_lat, source_lon, source_lat, distance, target_idx) =
     (if target_idx \<ge> length target_points then Inl InvalidTargetIndex
      else let target = target_points ! target_idx;
               interpolated = target
           in Inr (find_and_copy_source_values source_points target source_lon source_lat
                     interpolated))"

definition interpolate_nearest_neighbor ::
    "SpatialData list \<Rightarrow> SpatialData list \<Rightarrow> nn_mapping list \<Rightarrow> error + SpatialData list" where
  "interpolate_nearest_neighbor source_points target_points mappings =
     (case run_mappings (nearest_neighbor_body source_points target_points) mappings [] of
        Inl e \<Rightarrow> Inl e
      | Inr result \<Rightarrow>
          if result = [] then Inl (NoInterpolation NEAREST_NEIGHBOR) else Inr result)"

text \<open>The weight of a neighbour at a reported distance.  The base of \<^verbatim>\<open>std::pow\<close> is
  positive where it is called.\<close>

definition idw_weight :: "real \<Rightarrow> real \<Rightarrow> real" where
  "idw_weight p distance = (if distance > 1 / 10 ^ 6 then 1 / (distance powr p) else 10 ^ 6)"

text \<open>The loop that collects \<open>weights\<close> and \<open>source_points\<close>: a neighbour whose source is not
  found is skipped.\<close>

fun collect_sources ::
    "SpatialData list \<Rightarrow> real \<Rightarrow> SpatialData \<Rightarrow> neighbor list
      \<Rightarrow> real list \<times> SpatialData list" where
  "collect_sources source_points p target [] = ([], [])"
| "collect_sources source_points p target ((source_lon, source_lat, distance) # rest) =
     (case find (\<lambda>src. matches src source_lon source_lat (time_step target)) source_points of
        None \<Rightarrow> collect_sources source_points p target rest
      | Some source \<Rightarrow>
          (case collect_sources source_points p target rest of
             (weights, sources) \<Rightarrow> (idw_weight p distance # weights, source # sources)))"

text \<open>The accumulation loop over the collected sources; the state is
  \<open>(weight_sum, interpolated.values)\<close>.\<close>

fun accumulate ::
    "real list \<Rightarrow> SpatialData list \<Rightarrow> real \<times> real list \<Rightarrow> real \<times> real list" where
  "accumulate (w # weights) (source # sources) (weight_sum, values) =
     accumulate weights sources
       (weight_sum + w, map (\<lambda>j. values ! j + w * vals source ! j) [0..<length values])"
| "accumulate weights sources st = st"

text \<open>The loop body of \<^verbatim>\<open>interpolate_idw\<close>.\<close>

fun idw_body ::
    "SpatialData list \<Rightarrow> RegridConfig \<Rightarrow> SpatialData list \<Rightarrow> idw_mapping
      \<Rightarrow> error + SpatialData option" where
  "idw_body source_points config target_points
       (target_lon, target_lat, sources, target_idx, is_fallback) =
     (if target_idx \<ge> length target_points then Inl InvalidTargetIndex
      else
        let target = target_points ! target_idx;
            interpolated = target\<lparr>vals := []\<rparr>
        in if is_fallback then
             (if length sources \<noteq> 1 then Inl InvalidFallbackMapping
              else (case sources ! 0 of (source_lon, source_lat, distance) \<Rightarrow>
                Inr (find_and_copy_source_values source_points target source_lon source_lat
                       interpolated)))
           else
             (case collect_sources source_points (idw_power config) target sources of
                (weights, found) \<Rightarrow>
                  if found = [] then Inr None
                  else
                    (case accumulate weights found
                            (0, replicate (length (vals (found ! 0))) 0) of
                       (weight_sum, values) \<Rightarrow>
                         Inr (Some (interpolated\<lparr>vals := map (\<lambda>value. value / weight_sum) values\<rparr>)))))"

definition interpolate_idw ::
    "SpatialData list \<Rightarrow> RegridConfig \<Rightarrow> SpatialData list \<Rightarrow> idw_mapping list
      \<Rightarrow> error + SpatialData list" where
  "interpolate_idw source_points config target_points mappings =
     (case run_mappings (idw_body source_points config target_points) mappings [] of
        Inl e \<Rightarrow> Inl e
      | Inr result \<Rightarrow>
          if result = [] then Inl (NoInterpolation INVERSE_DISTANCE_WEIGHTED) else Inr result)"

text \<open>\<^verbatim>\<open>interpolate\<close>; its last branch (unknown method) cannot be reached with one of the two
  enumerators.\<close>

definition interpolate ::
    "SpatialData list \<Rightarrow> RegridConfig \<Rightarrow> SpatialData list \<Rightarrow> nn_mapping list
      \<Rightarrow> idw_mapping list \<Rightarrow> error + SpatialData list" where
  "interpolate source_points config target_points nn_mappings idw_mappings =
     (case interp_method config of
        NEAREST_NEIGHBOR \<Rightarrow> interpolate_nearest_neighbor source_points target_points nn_mappings
      | INVERSE_DISTANCE_WEIGHTED \<Rightarrow>
          interpolate_idw source_points config target_points idw_mappings)"

text \<open>The result vector as it stands when the loop of the configured method ends.\<close>

definition produced ::
    "SpatialData list \<Rightarrow> RegridConfig \<Rightarrow> SpatialData list \<Rightarrow> nn_mapping list
      \<Rightarrow> idw_mapping list \<Rightarrow> error + SpatialData list" where
  "produced source_points config target_points nn_mappings idw_mappings =
     (case interp_method config of
        NEAREST_NEIGHBOR \<Rightarrow>
          run_mappings (nearest_neighbor_body source_points target_points) nn_mappings []
      | INVERSE_DISTANCE_WEIGHTED \<Rightarrow>
          run_mappings (idw_body source_points config target_points) idw_mappings [])"

text \<open>The weighted mean in the words of the specification.  The resolved neighbours of a
  mapping are the pairs of a weight and a source record, for the neighbours whose source
  is found; component \<open>j\<close> of the result is
  \<open>(\<Sum>\<^sub>i w\<^sub>i * source\<^sub>i.values[j]) / (\<Sum>\<^sub>i w\<^sub>i)\<close>.\<close>

definition resolved_neighbors ::
    "SpatialData list \<Rightarrow> real \<Rightarrow> int \<Rightarrow> neighbor list \<Rightarrow> (real \<times> SpatialData) list" where
  "resolved_neighbors source_points p t neighbors =
     List.map_filter
       (\<lambda>(source_lon, source_lat, distance).
          map_option
            (\<lambda>src. ((if distance > 1 / 10 ^ 6 then 1 / (distance powr p) else 10 ^ 6), src))
            (find (\<lambda>src. matches src source_lon source_lat t) source_points))
       neighbors"

definition weighted_mean :: "(real \<times> SpatialData) list \<Rightarrow> nat \<Rightarrow> real" where
  "weighted_mean resolved j =
     (\<Sum>(w, src) \<leftarrow> resolved. w * vals src ! j) / (\<Sum>(w, src) \<leftarrow> resolved. w)"

section \<open>Round trip\<close>




section \<open>Example data\<close>

text \<open>A record written in one line, for the concrete inputs of the examples.\<close>

definition point :: "real \<Rightarrow> real \<Rightarrow> int \<Rightarrow> real list \<Rightarrow> SpatialData" where
  "point lon lat t vs = \<lparr>gridPoint = \<lparr>longitude = lon, latitude = lat\<rparr>, time_step = t, vals = vs\<rparr>"

section \<open>The configuration builder\<close>

lemma call_validated: "validated b \<Longrightarrow> call c b = Inr b' \<Longrightarrow> validated b'"
  by (cases c) (auto simp: validated_def set_interpolation_def set_distance_metric_def
      set_data_layout_def set_radius_def set_power_def set_max_points_def set_min_points_def
      set_adjust_longitude_def set_precision_def set_verbose_def set_write_mappings_def
      set_nn_mappings_file_def set_idw_mappings_file_def set_chunk_size_def set_output_path_def
      Let_def split: if_splits)

lemma call_error_kind: "call c b = Inl e \<Longrightarrow> \<exists>msg. e = InvalidArgument msg"
  by (cases c) (auto simp: set_interpolation_def set_distance_metric_def
      set_data_layout_def set_radius_def set_power_def set_max_points_def set_min_points_def
      set_adjust_longitude_def set_precision_def set_verbose_def set_write_mappings_def
      set_nn_mappings_file_def set_idw_mappings_file_def set_chunk_size_def set_output_path_def
      Let_def split: if_splits)

lemma validated_default: "validated RegridConfigBuilder"
  by (simp add: validated_def RegridConfigBuilder_def)

lemma calls_caught_validated: "validated b \<Longrightarrow> validated (calls_caught cs b)"
  by (induction cs arbitrary: b) (auto split: sum.splits dest: call_validated)

lemma call_min_le_max:
  "min_points b \<le> max_points b \<Longrightarrow> call c b = Inr b' \<Longrightarrow> min_points b' \<le> max_points b'"
  by (cases c) (auto simp: set_interpolation_def set_distance_metric_def
      set_data_layout_def set_radius_def set_power_def set_max_points_def set_min_points_def
      set_adjust_longitude_def set_precision_def set_verbose_def set_write_mappings_def
      set_nn_mappings_file_def set_idw_mappings_file_def set_chunk_size_def set_output_path_def
      Let_def split: if_splits)

lemma calls_min_le_max:
  "min_points b \<le> max_points b \<Longrightarrow> calls cs b = Inr b' \<Longrightarrow> min_points b' \<le> max_points b'"
  by (induction cs arbitrary: b) (auto split: sum.splits dest: call_min_le_max)

text \<open>
  Claim C7, as the code has it.  Each validating setter throws \<open>InvalidArgument\<close> exactly on
  its own bad argument: a negative radius, a non-positive power, a non-positive
  \<open>max_points\<close>, a \<open>min_points\<close> that is non-positive or above the current \<open>max_points\<close>, a
  zero chunk size, an empty NN or IDW mappings filename; no setter throws anything else.
  \<open>set_max_points\<close> with a positive argument never throws: it lowers \<open>min_points\<close> to the new
  \<open>max_points\<close> when \<open>min_points\<close> would exceed it.  Whatever sequence of setter calls is made
  on a fresh builder, failed calls included, \<open>build\<close> returns a configuration with
  \<open>radius \<ge> 0\<close>, \<open>power > 0\<close>, \<open>max_points > 0\<close>, \<open>min_points > 0\<close>, a non-zero chunk size,
  non-empty mappings filenames and \<open>min_points \<le> max_points\<close>.
\<close>

theorem builder_validation:
  "(isl (set_radius r b) \<longleftrightarrow> r < 0) \<and>
   (isl (set_power p b) \<longleftrightarrow> p \<le> 0) \<and>
   (isl (set_max_points n b) \<longleftrightarrow> n \<le> 0) \<and>
   (isl (set_min_points m b) \<longleftrightarrow> m \<le> 0 \<or> max_points b < m) \<and>
   (isl (set_chunk_size k b) \<longleftrightarrow> k = 0) \<and>
   (isl (set_nn_mappings_file f b) \<longleftrightarrow> f = []) \<and>
   (isl (set_idw_mappings_file g b) \<longleftrightarrow> g = []) \<and>
   (\<forall>c e. call c b = Inl e \<longrightarrow> (\<exists>msg. e = InvalidArgument msg)) \<and>
   (0 < n \<longrightarrow> set_max_points n b = Inr (b\<lparr>max_points := n, min_points := min n (min_points b)\<rparr>)) \<and>
   validated (build (calls_caught cs RegridConfigBuilder))"
proof (intro conjI allI impI)
  show "isl (set_radius r b) \<longleftrightarrow> r < 0" by (simp add: set_radius_def)
  show "isl (set_power p b) \<longleftrightarrow> p \<le> 0" by (simp add: set_power_def)
  show "isl (set_max_points n b) \<longleftrightarrow> n \<le> 0" by (simp add: set_max_points_def Let_def)
  show "isl (set_min_points m b) \<longleftrightarrow> m \<le> 0 \<or> max_points b < m"
    by (simp add: set_min_points_def)
  show "isl (set_chunk_size k b) \<longleftrightarrow> k = 0" by (simp add: set_chunk_size_def)
  show "isl (set_nn_mappings_file f b) \<longleftrightarrow> f = []" by (simp add: set_nn_mappings_file_def)
  show "isl (set_idw_mappings_file g b) \<longleftrightarrow> g = []" by (simp add: set_idw_mappings_file_def)
  show "\<exists>msg. e = InvalidArgument msg" if "call c b = Inl e" for c e
    using that by (rule call_error_kind)
  show "set_max_points n b = Inr (b\<lparr>max_points := n, min_points := min n (min_points b)\<rparr>)"
    if "0 < n"
    using that by (simp add: set_max_points_def Let_def min_def)
  show "validated (build (calls_caught cs RegridConfigBuilder))"
    unfolding build_def by (rule calls_caught_validated [OF validated_default])
qed

theorem builder_validation_witness:
  "set_max_points 3 RegridConfigBuilder
     = Inr (RegridConfigBuilder\<lparr>max_points := 3, min_points := 3\<rparr>) \<and>
   isl (set_min_points 6 RegridConfigBuilder) \<and>
   isl (set_radius (- 1) RegridConfigBuilder) \<and>
   validated (build (calls_caught [Set_radius (- 1), Set_min_points 6, Set_max_points 3]
                RegridConfigBuilder))"
  using builder_validation [of "- 1" RegridConfigBuilder 0 3 6 0 "[]" "[]"
      "[Set_radius (- 1), Set_min_points 6, Set_max_points 3]"]
  by (simp add: RegridConfigBuilder_def)

text \<open>
  Claim C7 as stated says that any configuration in which \<open>min_points > max_points\<close> is
  rejected with \<open>InvalidArgument\<close>.  Asking for \<open>min_points = 5\<close> and then for
  \<open>max_points = 3\<close> is not rejected: both calls succeed and the builder holds
  \<open>min_points = 3\<close>.
\<close>

theorem builder_rejection_counterexample:
  "calls [Set_min_points 5, Set_max_points 3] RegridConfigBuilder
     = Inr (RegridConfigBuilder\<lparr>max_points := 3, min_points := 3\<rparr>)"
  by (simp add: set_min_points_def set_max_points_def RegridConfigBuilder_def)

text \<open>
  Claim C10.  When a chain of setter calls on a fresh builder succeeds, the configuration
  that \<open>build\<close> returns has \<open>min_points \<le> max_points\<close>; and \<open>set_max_points\<close> with a positive
  argument below the current \<open>min_points\<close> raises no error: it stores the argument as
  \<open>max_points\<close> and lowers \<open>min_points\<close> to it.
\<close>

theorem build_min_le_max:
  "(calls cs RegridConfigBuilder = Inr b \<longrightarrow> min_points (build b) \<le> max_points (build b)) \<and>
   (0 < n \<and> n < min_points c \<longrightarrow>
      set_max_points n c = Inr (c\<lparr>max_points := n, min_points := n\<rparr>))"
proof (intro conjI impI)
  assume "calls cs RegridConfigBuilder = Inr b"
  moreover have "min_points RegridConfigBuilder \<le> max_points RegridConfigBuilder"
    by (simp add: RegridConfigBuilder_def)
  ultimately show "min_points (build b) \<le> max_points (build b)"
    unfolding build_def by (rule calls_min_le_max [rotated])
next
  assume "0 < n \<and> n < min_points c"
  then show "set_max_points n c = Inr (c\<lparr>max_points := n, min_points := n\<rparr>)"
    by (simp add: set_max_points_def Let_def)
qed

theorem build_min_le_max_witness:
  "calls [Set_max_points 8, Set_min_points 7, Set_max_points 2] RegridConfigBuilder
     = Inr (RegridConfigBuilder\<lparr>max_points := 2, min_points := 2\<rparr>) \<and>
   min_points (build (RegridConfigBuilder\<lparr>max_points := 2, min_points := 2\<rparr>))
     \<le> max_points (build (RegridConfigBuilder\<lparr>max_points := 2, min_points := 2\<rparr>)) \<and>
   set_max_points 2 (RegridConfigBuilder\<lparr>max_points := 8, min_points := 7\<rparr>)
     = Inr (RegridConfigBuilder\<lparr>max_points := 2, min_points := 2\<rparr>)"
proof -
  have c: "calls [Set_max_points 8, Set_min_points 7, Set_max_points 2] RegridConfigBuilder
     = Inr (RegridConfigBuilder\<lparr>max_points := 2, min_points := 2\<rparr>)"
    by (simp add: set_min_points_def set_max_points_def RegridConfigBuilder_def)
  have h: "(0::int) < 2 \<and> 2 < min_points (RegridConfigBuilder\<lparr>max_points := 8, min_points := 7\<rparr>)"
    by simp
  show ?thesis
    using build_min_le_max [of "[Set_max_points 8, Set_min_points 7, Set_max_points 2]"
        "RegridConfigBuilder\<lparr>max_points := 2, min_points := 2\<rparr>" 2
        "RegridConfigBuilder\<lparr>max_points := 8, min_points := 7\<rparr>"] c h
    by (simp add: RegridConfigBuilder_def)
qed

section \<open>Geodesy primitives\<close>

lemma cos_to_radians_nonneg: "\<bar>lat\<bar> \<le> 90 \<Longrightarrow> 0 \<le> cos (to_radians lat)"
proof -
  assume h: "\<bar>lat\<bar> \<le> 90"
  have "pi * (- 90) \<le> pi * lat" "pi * lat \<le> pi * 90"
    using h by (intro mult_left_mono; simp)+
  then have "- (pi / 2) \<le> to_radians lat" "to_radians lat \<le> pi / 2"
    unfolding to_radians_def by (simp_all add: mult.commute)
  then show ?thesis by (rule cos_ge_zero)
qed

lemma to_radians_90: "to_radians 90 = pi / 2" "to_radians (- 90) = - (pi / 2)"
  by (simp_all add: to_radians_def)

text \<open>
  Claim C6.  \<open>km_to_degrees km lat\<close> fails exactly when \<open>km < 0\<close> or \<open>\<bar>lat\<bar> > 90\<close>, and then
  with \<open>InvalidArgument\<close>.  Otherwise it returns \<open>km / (111.32 * c)\<close>, where \<open>c\<close> is
  \<open>cos (to_radians lat)\<close> floored at \<open>1e-10\<close>; the divisor is positive, so there is no
  division by zero, and at the poles \<open>lat = \<plusminus>90\<close> the cosine is 0 and the result is
  \<open>km / (111.32 * 1e-10)\<close>.
\<close>

theorem km_to_degrees_spec:
  "(isl (km_to_degrees km lat) \<longleftrightarrow> km < 0 \<or> \<bar>lat\<bar> > 90) \<and>
   (\<forall>e. km_to_degrees km lat = Inl e \<longrightarrow> (\<exists>msg. e = InvalidArgument msg)) \<and>
   (\<not> (km < 0 \<or> \<bar>lat\<bar> > 90) \<longrightarrow>
      km_to_degrees km lat = Inr (km / (111.32 * max (cos (to_radians lat)) (1 / 10 ^ 10))) \<and>
      0 < 111.32 * max (cos (to_radians lat)) (1 / 10 ^ 10)) \<and>
   (0 \<le> km \<longrightarrow>
      km_to_degrees km 90 = Inr (km / (111.32 / 10 ^ 10)) \<and>
      km_to_degrees km (- 90) = Inr (km / (111.32 / 10 ^ 10)))"
proof (intro conjI allI impI)
  show "isl (km_to_degrees km lat) \<longleftrightarrow> km < 0 \<or> \<bar>lat\<bar> > 90"
    by (simp add: km_to_degrees_def Let_def)
  show "\<exists>msg. e = InvalidArgument msg" if "km_to_degrees km lat = Inl e" for e
    using that by (auto simp: km_to_degrees_def Let_def split: if_splits)
  show "km_to_degrees km lat = Inr (km / (111.32 * max (cos (to_radians lat)) (1 / 10 ^ 10)))"
    if "\<not> (km < 0 \<or> \<bar>lat\<bar> > 90)"
  proof -
    have "0 \<le> cos (to_radians lat)" using that by (intro cos_to_radians_nonneg) simp
    then show ?thesis using that by (auto simp: km_to_degrees_def Let_def max_def)
  qed
  show "0 < 111.32 * max (cos (to_radians lat)) (1 / 10 ^ 10)"
    by (simp add: max_def)
  show "km_to_degrees km 90 = Inr (km / (111.32 / 10 ^ 10))" if "0 \<le> km"
    using that by (simp add: km_to_degrees_def Let_def to_radians_90)
  show "km_to_degrees km (- 90) = Inr (km / (111.32 / 10 ^ 10))" if "0 \<le> km"
    using that by (simp add: km_to_degrees_def Let_def to_radians_90)
qed

theorem km_to_degrees_spec_witness:
  "km_to_degrees 200 0 = Inr (200 / 111.32) \<and>
   km_to_degrees 200 90 = Inr (200 / (111.32 / 10 ^ 10)) \<and>
   km_to_degrees (- 1) 0 = Inl (InvalidArgument ''Distance in km must be non-negative'') \<and>
   isl (km_to_degrees 1 91)"
  using km_to_degrees_spec [of 200 0] km_to_degrees_spec [of "- 1" 0] km_to_degrees_spec [of 1 91]
  by (simp add: to_radians_def km_to_degrees_def)

subsection \<open>Longitude normalisation\<close>

lemma binade_eq:
  assumes "2 powi n \<le> \<bar>x\<bar>" "\<bar>x\<bar> < 2 powi (n + 1)"
  shows "binade x = n"
proof -
  have pos: "0 < \<bar>x\<bar>" using assms(1) by (smt (verit) zero_less_power_int)
  have p1: "2 powr (of_int n) = (2::real) powi n"
    by (rule powr_real_of_int') simp_all
  have p2: "2 powr (of_int n + 1) = (2::real) powi (n + 1)"
    using powr_real_of_int' [of 2 "n + 1"] by simp
  have "of_int n \<le> log 2 \<bar>x\<bar>"
    using assms(1) pos by (simp add: le_log_iff p1)
  moreover have "log 2 \<bar>x\<bar> < of_int n + 1"
    using assms(2) pos by (simp add: log_less_iff p2)
  ultimately show ?thesis unfolding binade_def by (intro floor_unique) auto
qed

lemma round_half_even_of_int: "round_half_even (of_int k) = k"
  by (simp add: round_half_even_def)

text \<open>A value that is a multiple of the spacing of its binade is a binary64 value: rounding
  returns it unchanged.\<close>

lemma b64_round_exact:
  assumes "binade x = n" "x = of_int k * 2 powi (max (n - 52) (- 1074))"
  shows "b64_round x = x"
proof (cases "x = 0")
  case True
  then show ?thesis by (simp add: b64_round_def)
next
  case False
  have "x / 2 powi (max (n - 52) (- 1074)) = of_int k"
    by (subst assms(2)) simp
  then show ?thesis
    using False assms unfolding b64_round_def Let_def
    by (simp only: round_half_even_of_int if_False)
qed

text \<open>\<open>2^63 = 9223372036854775808\<close> is a binary64 value; the values next to it are
  \<open>2^63 - 1024\<close> and \<open>2^63 + 2048\<close>, so \<open>2^63 - 360\<close> rounds back to \<open>2^63\<close>.\<close>

lemma b64_round_2_63: "b64_round 9223372036854775808 = 9223372036854775808"
proof -
  have "binade 9223372036854775808 = 63"
    by (rule binade_eq) (simp_all add: power_int_def)
  then show ?thesis
    by (rule b64_round_exact [where k = "2 ^ 52"]) (simp add: power_int_def)
qed

lemma b64_round_2_63_minus_360: "b64_round 9223372036854775448 = 9223372036854775808"
proof -
  have b: "binade (2 ^ 63 - 360) = 62"
    by (rule binade_eq) (simp_all add: power_int_def)
  have fl: "\<lfloor>(2 ^ 63 - 360) / 2 ^ 10 :: real\<rfloor> = 2 ^ 53 - 1"
    by (rule floor_unique) simp_all
  have "round_half_even ((2 ^ 63 - 360) / 2 ^ 10) = 2 ^ 53"
    unfolding round_half_even_def Let_def fl by simp
  then have "b64_round (2 ^ 63 - 360) = 2 ^ 63"
    unfolding b64_round_def Let_def b by (simp add: power_int_def)
  then show ?thesis by simp
qed

lemma shift_down_2_63: "shift_down 9223372036854775808 = None"
proof -
  have "x \<noteq> 9223372036854775808" if h: "shift_down x = Some y" for x y
  proof (rule shift_down.raw_induct [where P = "\<lambda>x _. x \<noteq> 9223372036854775808", OF _ h])
    fix f :: "real \<Rightarrow> real option" and x y :: real
    assume IH: "\<And>x y. f x = Some y \<Longrightarrow> x \<noteq> 9223372036854775808"
      and st: "(if 180 < x then f (b64_round (x - 360)) else Some x) = Some y"
    show "x \<noteq> 9223372036854775808"
    proof
      assume "x = 9223372036854775808"
      with st have "f 9223372036854775808 = Some y"
        by (simp add: b64_round_2_63_minus_360)
      with IH show False by blast
    qed
  qed
  then show ?thesis by (cases "shift_down 9223372036854775808") auto
qed

text \<open>An input in the ordinary range takes one shift: \<open>190\<close> becomes \<open>-170\<close>.\<close>

lemma b64_round_minus_170: "b64_round (- 170) = - 170"
proof -
  have "binade (- 170) = 7"
    by (rule binade_eq) (simp_all add: power_int_def)
  then show ?thesis
    by (rule b64_round_exact [where k = "- 170 * 2 ^ 45"]) (simp add: power_int_minus)
qed

lemma adjust_longitude_190: "adjust_longitude 190 = Some (- 170)"
proof -
  have "shift_down (- 170) = Some (- 170)"
    by (subst shift_down.simps) simp
  then have "shift_down 190 = Some (- 170)"
    by (subst shift_down.simps) (simp add: b64_round_minus_170)
  moreover have "shift_up (- 170) = Some (- 170)"
    by (subst shift_up.simps) simp
  ultimately show ?thesis by (simp add: adjust_longitude_def)
qed

text \<open>On the inputs the reader passes on, binary64 values of magnitude at most 360, at
  most one shift runs, it is exact, and the result lies in \<open>[-180, 180]\<close>.\<close>

lemma binade_less:
  assumes "x \<noteq> 0" "\<bar>x\<bar> < 2 ^ n"
  shows "binade x < int n"
proof -
  have "log 2 \<bar>x\<bar> < real n"
    using assms by (simp add: log_less_iff powr_realpow)
  then show ?thesis unfolding binade_def by (simp add: floor_less_iff)
qed

lemma binade_ge:
  assumes "2 ^ n \<le> \<bar>x\<bar>"
  shows "int n \<le> binade x"
proof -
  have "0 < \<bar>x\<bar>" using assms by (smt (verit) zero_less_power)
  then have "real n \<le> log 2 \<bar>x\<bar>"
    using assms by (simp add: le_log_iff powr_realpow)
  then show ?thesis unfolding binade_def by (simp add: le_floor_iff)
qed

text \<open>A multiple of \<open>2 powi n\<close> is a multiple of every smaller power of two.\<close>

lemma multiple_powi:
  assumes "(x::real) = of_int k * 2 powi n" "e \<le> n"
  shows "\<exists>k'. x = of_int k' * 2 powi e"
proof -
  have "(2::real) powi n = 2 powi (n - e) * 2 powi e"
    by (simp add: power_int_add [symmetric])
  moreover have "(2::real) powi (n - e) = of_int (2 ^ nat (n - e))"
    using assms(2) by (simp add: power_int_def)
  ultimately have "x = of_int (k * 2 ^ nat (n - e)) * 2 powi e"
    unfolding assms(1) by simp
  then show ?thesis by blast
qed

lemma b64_round_multiple:
  assumes "x = of_int k * 2 powi n" "max (binade x - 52) (- 1074) \<le> n"
  shows "b64_round x = x"
proof -
  from multiple_powi [OF assms] obtain k' where
    "x = of_int k' * 2 powi (max (binade x - 52) (- 1074))" by blast
  then show ?thesis by (rule b64_round_exact [OF refl])
qed

text \<open>A binary64 value between 128 and 512 in magnitude is a multiple of \<open>2 powi (- 45)\<close>.\<close>

lemma b64_value_multiple:
  assumes "b64_round x = x" "2 ^ 7 \<le> \<bar>x\<bar>"
  shows "\<exists>k. x = of_int k * 2 powi (- 45)"
proof -
  have "x \<noteq> 0" using assms(2) by auto
  then have x: "x = of_int (round_half_even (x / 2 powi max (binade x - 52) (- 1074)))
                      * 2 powi max (binade x - 52) (- 1074)"
    using assms(1) unfolding b64_round_def Let_def by simp
  have "7 \<le> binade x" using binade_ge [OF assms(2)] by simp
  then have "- 45 \<le> max (binade x - 52) (- 1074)" by simp
  from multiple_powi [OF x this] show ?thesis .
qed

lemma b64_shift_exact:
  assumes r: "b64_round x = x" and lo: "180 < \<bar>x\<bar>" and hi: "\<bar>x\<bar> \<le> 360"
    and y: "y = x - 360 \<or> y = x + 360" "\<bar>y\<bar> < 180"
  shows "b64_round y = y"
proof (cases "y = 0")
  case True
  then show ?thesis by (simp add: b64_round_def)
next
  case False
  have "2 ^ 7 \<le> \<bar>x\<bar>" using lo by simp
  from b64_value_multiple [OF r this] obtain k where k: "x = of_int k * 2 powi (- 45)" by blast
  have c: "(360::real) = of_int (360 * 2 ^ 45) * 2 powi (- 45)"
    by (simp add: power_int_minus)
  have "\<exists>k'. y = of_int k' * 2 powi (- 45)"
  proof (rule disjE [OF y(1)])
    assume "y = x - 360"
    then have "y = of_int (k - 360 * 2 ^ 45) * 2 powi (- 45)"
      using k c by (simp only: of_int_diff left_diff_distrib)
    then show ?thesis by blast
  next
    assume "y = x + 360"
    then have "y = of_int (k + 360 * 2 ^ 45) * 2 powi (- 45)"
      using k c by (simp only: of_int_add distrib_right)
    then show ?thesis by blast
  qed
  then obtain k' where k': "y = of_int k' * 2 powi (- 45)" by blast
  have "\<bar>y\<bar> < 2 ^ 8" using y(2) by simp
  from binade_less [OF False this] have "max (binade y - 52) (- 1074) \<le> - 45" by simp
  with k' show ?thesis by (rule b64_round_multiple)
qed

lemma adjust_longitude_in_range:
  assumes "b64_round lon = lon" "\<bar>lon\<bar> \<le> 360"
  shows "\<exists>y. adjust_longitude lon = Some y \<and> - 180 \<le> y \<and> y \<le> 180"
proof -
  consider "180 < lon" | "lon < - 180" | "- 180 \<le> lon \<and> lon \<le> 180" by linarith
  then show ?thesis
  proof cases
    case 1
    define y where "y = lon - 360"
    have yr: "- 180 < y" "y \<le> 0" using 1 assms(2) unfolding y_def by simp_all
    then have "\<bar>y\<bar> < 180" by simp
    with assms 1 have e: "b64_round y = y"
      by (intro b64_shift_exact [of lon y]) (simp_all add: y_def)
    have "shift_down y = Some y" using yr by (subst shift_down.simps) simp
    then have "shift_down lon = Some y"
      using 1 e by (subst shift_down.simps) (simp add: y_def)
    moreover have "shift_up y = Some y" using yr by (subst shift_up.simps) simp
    ultimately show ?thesis using yr by (simp add: adjust_longitude_def)
  next
    case 2
    define y where "y = lon + 360"
    have yr: "0 \<le> y" "y < 180" using 2 assms(2) unfolding y_def by simp_all
    then have "\<bar>y\<bar> < 180" by simp
    with assms 2 have e: "b64_round y = y"
      by (intro b64_shift_exact [of lon y]) (simp_all add: y_def)
    have "shift_down lon = Some lon" using 2 by (subst shift_down.simps) simp
    moreover have "shift_up y = Some y" using yr by (subst shift_up.simps) simp
    then have "shift_up lon = Some y"
      using 2 e by (subst shift_up.simps) (simp add: y_def)
    ultimately show ?thesis using yr by (simp add: adjust_longitude_def)
  next
    case 3
    have "shift_down lon = Some lon" using 3 by (subst shift_down.simps) simp
    moreover have "shift_up lon = Some lon" using 3 by (subst shift_up.simps) simp
    ultimately show ?thesis using 3 by (simp add: adjust_longitude_def)
  qed
qed

text \<open>In exact arithmetic both loops terminate (the definitions above carry the
  termination proofs) and the result lies in \<open>[-180, 180]\<close>.\<close>

lemma shift_down_exact_range:
  "shift_down_exact lon \<le> 180 \<and> (180 < lon \<longrightarrow> - 180 < shift_down_exact lon) \<and>
   (lon \<le> 180 \<longrightarrow> shift_down_exact lon = lon)"
proof (induction lon rule: shift_down_exact.induct)
  case (1 lon)
  show ?case
  proof (cases "180 < lon")
    case True
    with 1 show ?thesis by (subst (1 2 3) shift_down_exact.simps) (auto split: if_splits)
  next
    case False
    then show ?thesis by simp
  qed
qed

lemma shift_up_exact_range:
  "- 180 \<le> shift_up_exact lon \<and> (lon < - 180 \<longrightarrow> shift_up_exact lon < 180) \<and>
   (- 180 \<le> lon \<longrightarrow> shift_up_exact lon = lon)"
proof (induction lon rule: shift_up_exact.induct)
  case (1 lon)
  show ?case
  proof (cases "lon < - 180")
    case True
    with 1 show ?thesis by (subst (1 2 3) shift_up_exact.simps) (auto split: if_splits)
  next
    case False
    then show ?thesis by simp
  qed
qed

lemma adjust_longitude_exact_range:
  "- 180 \<le> adjust_longitude_exact lon \<and> adjust_longitude_exact lon \<le> 180"
  unfolding adjust_longitude_exact_def
  using shift_down_exact_range [of lon] shift_up_exact_range [of "shift_down_exact lon"]
  by (cases "- 180 \<le> shift_down_exact lon") auto

text \<open>
  Claim C9 says that \<open>adjust_longitude\<close> terminates on every finite input with a result in
  \<open>[-180, 180]\<close>.  On the binary64 value \<open>2^63\<close> the first loop never exits: \<open>2^63 - 360.0\<close>
  is \<open>2^63\<close> again, so the call does not return.
\<close>

theorem adjust_longitude_2_63_diverges:
  "b64_round 9223372036854775808 = 9223372036854775808 \<and>
   b64_round (9223372036854775808 - 360) = 9223372036854775808 \<and>
   adjust_longitude 9223372036854775808 = None"
  using b64_round_2_63 b64_round_2_63_minus_360 shift_down_2_63
  by (simp add: adjust_longitude_def)

section \<open>Spatial mapper\<close>

subsection \<open>Distances\<close>




text \<open>In exact arithmetic the arguments of both square roots of the haversine formula lie
  between 0 and 1.\<close>

lemma haversine_a_le_one:
  assumes "\<bar>lat1\<bar> \<le> 90" "\<bar>lat2\<bar> \<le> 90"
  shows "sin (to_radians (lat2 - lat1) / 2) * sin (to_radians (lat2 - lat1) / 2) +
         cos (to_radians lat1) * cos (to_radians lat2) * sin v * sin v \<le> 1"
proof -
  define p1 where "p1 = to_radians lat1"
  define p2 where "p2 = to_radians lat2"
  define x where "x = to_radians (lat2 - lat1) / 2"
  have d: "p2 - p1 = 2 * x" unfolding p1_def p2_def x_def to_radians_def by (simp add: field_simps)
  have c: "0 \<le> cos p1 * cos p2"
    unfolding p1_def p2_def using assms by (intro mult_nonneg_nonneg cos_to_radians_nonneg)
  have "cos (p2 - p1) + cos (p2 + p1) = 2 * (cos p1 * cos p2)"
    by (simp add: cos_diff cos_add)
  moreover have "cos (p2 - p1) = 1 - 2 * (sin x * sin x)"
    unfolding d by (simp add: cos_double_sin power2_eq_square)
  moreover have "cos (p2 + p1) \<le> 1" by simp
  ultimately have le: "cos p1 * cos p2 \<le> 1 - sin x * sin x" by linarith
  have "sin v * sin v \<le> 1"
    using sin_squared_eq [of v] zero_le_power2 [of "cos v"] by (simp add: power2_eq_square)
  then have "(cos p1 * cos p2) * (sin v * sin v) \<le> (cos p1 * cos p2) * 1"
    using c by (rule mult_left_mono)
  then have "cos p1 * cos p2 * sin v * sin v \<le> cos p1 * cos p2" by (simp only: mult.assoc mult_1_right)
  with le show ?thesis unfolding p1_def p2_def x_def by linarith
qed





subsection \<open>The nearest-neighbour scan\<close>

lemma nn_scan_spec:
  assumes "nn_scan m t ss (md0, lo0, la0) = Inr (md, lo, la)"
  shows "list_all (no_closer m t md) ss \<and> md \<le> md0 \<and>
         ((md, lo, la) = (md0, lo0, la0) \<or>
          (\<exists>k<length ss. target_distance m t (ss ! k) = Inr md \<and> md < md0 \<and>
              lo = longitude (gridPoint (ss ! k)) \<and> la = latitude (gridPoint (ss ! k)) \<and>
              list_all (farther m t md) (take k ss)))"
  using assms
proof (induction ss arbitrary: md0 lo0 la0)
  case Nil
  then show ?case by simp
next
  case (Cons s rest)
  from Cons.prems obtain d where d: "target_distance m t s = Inr d"
    by (cases "target_distance m t s") auto
  show ?case
  proof (cases "d < md0")
    case True
    with Cons.prems d have sc:
      "nn_scan m t rest (d, longitude (gridPoint s), latitude (gridPoint s)) = Inr (md, lo, la)"
      by simp
    from Cons.IH [OF sc] have all: "list_all (no_closer m t md) rest" and le: "md \<le> d"
      and alt: "(md, lo, la) = (d, longitude (gridPoint s), latitude (gridPoint s)) \<or>
          (\<exists>k<length rest. target_distance m t (rest ! k) = Inr md \<and> md < d \<and>
              lo = longitude (gridPoint (rest ! k)) \<and> la = latitude (gridPoint (rest ! k)) \<and>
              list_all (farther m t md) (take k rest))"
      by blast+
    have "\<exists>k<length (s # rest). target_distance m t ((s # rest) ! k) = Inr md \<and> md < md0 \<and>
              lo = longitude (gridPoint ((s # rest) ! k)) \<and>
              la = latitude (gridPoint ((s # rest) ! k)) \<and>
              list_all (farther m t md) (take k (s # rest))"
    proof (rule disjE [OF alt])
      assume "(md, lo, la) = (d, longitude (gridPoint s), latitude (gridPoint s))"
      then show ?thesis using d True by (intro exI [of _ 0]) simp
    next
      assume "\<exists>k<length rest. target_distance m t (rest ! k) = Inr md \<and> md < d \<and>
              lo = longitude (gridPoint (rest ! k)) \<and> la = latitude (gridPoint (rest ! k)) \<and>
              list_all (farther m t md) (take k rest)"
      then obtain k where "k < length rest" "target_distance m t (rest ! k) = Inr md" "md < d"
        "lo = longitude (gridPoint (rest ! k))" "la = latitude (gridPoint (rest ! k))"
        "list_all (farther m t md) (take k rest)" by blast
      then show ?thesis using d True
        by (intro exI [of _ "Suc k"]) (simp add: farther_def)
    qed
    moreover have "list_all (no_closer m t md) (s # rest)"
      using all le d by (simp add: no_closer_def)
    moreover have "md \<le> md0" using le True by simp
    ultimately show ?thesis by blast
  next
    case False
    with Cons.prems d have sc: "nn_scan m t rest (md0, lo0, la0) = Inr (md, lo, la)"
      by simp
    from Cons.IH [OF sc] have all: "list_all (no_closer m t md) rest" and le: "md \<le> md0"
      and alt: "(md, lo, la) = (md0, lo0, la0) \<or>
          (\<exists>k<length rest. target_distance m t (rest ! k) = Inr md \<and> md < md0 \<and>
              lo = longitude (gridPoint (rest ! k)) \<and> la = latitude (gridPoint (rest ! k)) \<and>
              list_all (farther m t md) (take k rest))"
      by blast+
    have "(md, lo, la) = (md0, lo0, la0) \<or>
       (\<exists>k<length (s # rest). target_distance m t ((s # rest) ! k) = Inr md \<and> md < md0 \<and>
              lo = longitude (gridPoint ((s # rest) ! k)) \<and>
              la = latitude (gridPoint ((s # rest) ! k)) \<and>
              list_all (farther m t md) (take k (s # rest)))"
    proof (rule disjE [OF alt])
      assume "(md, lo, la) = (md0, lo0, la0)"
      then show ?thesis by simp
    next
      assume "\<exists>k<length rest. target_distance m t (rest ! k) = Inr md \<and> md < md0 \<and>
              lo = longitude (gridPoint (rest ! k)) \<and> la = latitude (gridPoint (rest ! k)) \<and>
              list_all (farther m t md) (take k rest)"
      then obtain k where "k < length rest" "target_distance m t (rest ! k) = Inr md" "md < md0"
        "lo = longitude (gridPoint (rest ! k))" "la = latitude (gridPoint (rest ! k))"
        "list_all (farther m t md) (take k rest)" by blast
      then have "\<exists>k<length (s # rest). target_distance m t ((s # rest) ! k) = Inr md \<and> md < md0 \<and>
              lo = longitude (gridPoint ((s # rest) ! k)) \<and>
              la = latitude (gridPoint ((s # rest) ! k)) \<and>
              list_all (farther m t md) (take k (s # rest))"
        using d False by (intro exI [of _ "Suc k"]) (simp add: farther_def)
      then show ?thesis by blast
    qed
    moreover have "list_all (no_closer m t md) (s # rest)"
      using all le d False by (simp add: no_closer_def)
    ultimately show ?thesis using le by blast
  qed
qed








subsection \<open>Concrete inputs\<close>

lemma point_sel [simp]:
  "longitude (gridPoint (point lon lat t vs)) = lon"
  "latitude (gridPoint (point lon lat t vs)) = lat"
  "time_step (point lon lat t vs) = t"
  "vals (point lon lat t vs) = vs"
  by (simp_all add: point_def)

lemma compute_distance_same_lat:
  assumes "\<bar>lat\<bar> \<le> 90" "\<bar>lon1\<bar> \<le> 360" "\<bar>lon2\<bar> \<le> 360"
  shows "compute_distance lon1 lat lon2 lat EUCLIDEAN = Inr \<bar>lon2 - lon1\<bar>"
  using assms by (simp add: compute_distance_def)

lemma target_distance_point_same_lat:
  assumes "\<bar>lat\<bar> \<le> 90" "\<bar>lon1\<bar> \<le> 360" "\<bar>lon2\<bar> \<le> 360"
  shows "target_distance EUCLIDEAN (point lon1 lat t1 vs1) (point lon2 lat t2 vs2) = Inr \<bar>lon2 - lon1\<bar>"
  using assms by (simp add: target_distance_def point_def compute_distance_same_lat)


subsection \<open>Nearest-neighbour mappings\<close>




subsection \<open>IDW neighbour search\<close>


lemma size_t_of_int_nat: "0 \<le> i \<Longrightarrow> i < 2 ^ 31 \<Longrightarrow> size_t_of_int i = nat i"
  by (simp add: size_t_of_int_def)

lemma nn_scan_first_nearest:
  assumes "nn_scan m t ss (DBL_MAX, 0, 0) = Inr (md, lo, la)" "md \<noteq> DBL_MAX"
  shows "\<exists>k. first_nearest m t ss k md \<and>
           lo = longitude (gridPoint (ss ! k)) \<and> la = latitude (gridPoint (ss ! k))"
  using nn_scan_spec [OF assms(1)] assms(2) unfolding first_nearest_def by auto

lemma idw_candidates_spec:
  assumes "idw_candidates config t ss = Inr ns"
  shows "length ns = length (filter (admitted config t) ss) \<and>
         (\<forall>n\<in>set ns. \<exists>s\<in>set ss. \<exists>d.
             target_distance (distance_metric config) t s = Inr d \<and> admitted config t s \<and>
             n = (longitude (gridPoint s), latitude (gridPoint s), d))"
  using assms
proof (induction ss arbitrary: ns)
  case Nil
  then show ?case by simp
next
  case (Cons s rest)
  from Cons.prems obtain d where d: "target_distance (distance_metric config) t s = Inr d"
    by (cases "target_distance (distance_metric config) t s") auto
  from Cons.prems d obtain ns' where r: "idw_candidates config t rest = Inr ns'"
    by (cases "idw_candidates config t rest") (auto split: sum.splits if_splits)
  note IH = Cons.IH [OF r]
  have ns: "ns = (if admitted config t s
                  then (longitude (gridPoint s), latitude (gridPoint s), d) # ns' else ns')"
    using Cons.prems d r
    by (cases "distance_metric config") (auto simp: admitted_def split: sum.splits if_splits)
  show ?case
  proof (cases "admitted config t s")
    case True
    with ns IH d show ?thesis by auto
  next
    case False
    with ns IH show ?thesis by auto
  qed
qed




lemma idw_mapping_of_fields:
  assumes "idw_mapping_of config ss t i = Inr (tlon, tlat, nbrs, idx, fb)"
  shows "tlon = longitude (gridPoint t) \<and> tlat = latitude (gridPoint t) \<and> idx = i \<and> nbrs \<noteq> []"
  using assms
  by (auto simp: idw_mapping_of_def Let_def split: sum.splits if_splits prod.splits)

lemma idw_mapping_of_flag:
  assumes "idw_mapping_of config ss t i = Inr (tlon, tlat, nbrs, idx, fb)"
  shows "\<exists>ns. idw_candidates config t ss = Inr ns \<and>
           (fb \<longleftrightarrow> length ns < size_t_of_int (min_points config))"
  using assms
  by (auto simp: idw_mapping_of_def Let_def split: sum.splits if_splits prod.splits)

lemma idw_mapping_of_fallback:
  assumes "idw_mapping_of config ss t i = Inr (tlon, tlat, nbrs, idx, True)"
  shows "\<exists>k d. first_nearest (distance_metric config) t ss k d \<and>
           nbrs = [(longitude (gridPoint (ss ! k)), latitude (gridPoint (ss ! k)),
                    dist_km (distance_metric config) t d)]"
proof -
  from assms obtain md lo la where
    sc: "nn_scan (distance_metric config) t ss (DBL_MAX, 0, 0) = Inr (md, lo, la)"
    and ne: "md \<noteq> DBL_MAX"
    and nb: "nbrs = [(lo, la, dist_km (distance_metric config) t md)]"
    by (auto simp: idw_mapping_of_def Let_def split: sum.splits if_splits prod.splits)
  from nn_scan_first_nearest [OF sc ne] nb show ?thesis by blast
qed



lemma idw_mappings_from_nth:
  assumes "idw_mappings_from config ss ts n = Inr ms"
  shows "length ms = length ts \<and>
         (\<forall>i<length ts. idw_mapping_of config ss (ts ! i) (n + i) = Inr (ms ! i))"
  using assms
proof (induction ts arbitrary: n ms)
  case Nil
  then show ?case by simp
next
  case (Cons t rest)
  from Cons.prems obtain m ms' where m: "idw_mapping_of config ss t n = Inr m"
    and r: "idw_mappings_from config ss rest (Suc n) = Inr ms'" and ms: "ms = m # ms'"
    by (auto split: sum.splits)
  from Cons.IH [OF r] have len: "length ms' = length rest"
    and nth: "\<forall>i<length rest. idw_mapping_of config ss (rest ! i) (Suc n + i) = Inr (ms' ! i)"
    by blast+
  show ?case
  proof (intro conjI allI impI)
    show "length ms = length (t # rest)" using len ms by simp
    fix i assume "i < length (t # rest)"
    then show "idw_mapping_of config ss ((t # rest) ! i) (n + i) = Inr (ms ! i)"
      using m nth ms by (cases i) auto
  qed
qed






lemma km_to_degrees_equator: "0 \<le> km \<Longrightarrow> km_to_degrees km 0 = Inr (km / 111.32)"
  by (simp add: km_to_degrees_def to_radians_def)


lemma idw_fallback_example:
  "find_idw_neighbors
     (RegridConfigBuilder\<lparr>distance_metric := EUCLIDEAN, radius := 10, max_points := 2, min_points := 2\<rparr>)
     [point 0 0 1 [10], point 3 0 1 [20]] [point 1 0 1 [0]]
   = Inr [(1, 0, [(0, 0, 111.32)], 0, True)]"
  by (simp add: find_idw_neighbors_def idw_mapping_of_def target_distance_point_same_lat
      km_to_degrees_equator size_t_of_int_def dist_km_def to_radians_def DBL_MAX_def
      RegridConfigBuilder_def)






text \<open>
  Claim C2.  Let \<open>min_points\<close> be a non-negative \<^verbatim>\<open>int\<close>.  When \<open>find_idw_neighbors\<close>
  returns, it returns one mapping per target, in target order, and the mapping of a
  target has \<open>is_fallback = true\<close> exactly when fewer than \<open>min_points\<close> sources pass the
  admission test of the metric; a fallback mapping holds exactly one neighbour, the
  first-seen nearest source under the configured metric, with its distance in km.
\<close>

theorem idw_fallback_spec:
  assumes "0 \<le> min_points config" "min_points config < 2 ^ 31"
    and "find_idw_neighbors config source_points target_points = Inr ms"
  shows "length ms = length target_points \<and>
         (\<forall>i<length target_points. case ms ! i of (tlon, tlat, nbrs, idx, fb) \<Rightarrow>
            idx = i \<and>
            (fb \<longleftrightarrow> int (length (filter (admitted config (target_points ! i)) source_points))
                      < min_points config) \<and>
            (fb \<longrightarrow> (\<exists>k d.
                first_nearest (distance_metric config) (target_points ! i) source_points k d \<and>
                nbrs = [(longitude (gridPoint (source_points ! k)),
                         latitude (gridPoint (source_points ! k)),
                         (if distance_metric config = HAVERSINE then d
                          else d * 111.32 *
                               cos (to_radians (latitude (gridPoint (target_points ! i))))))])))"
proof (intro conjI allI impI)
  from assms(3) have nth: "length ms = length target_points \<and>
      (\<forall>i<length target_points.
          idw_mapping_of config source_points (target_points ! i) (0 + i) = Inr (ms ! i))"
    unfolding find_idw_neighbors_def by (rule idw_mappings_from_nth)
  then show "length ms = length target_points" by simp
  fix i assume i: "i < length target_points"
  obtain tlon tlat nbrs idx fb where m: "ms ! i = (tlon, tlat, nbrs, idx, fb)"
    by (cases "ms ! i") auto
  from nth i m
  have mo: "idw_mapping_of config source_points (target_points ! i) i = Inr (tlon, tlat, nbrs, idx, fb)"
    by simp
  from idw_mapping_of_fields [OF mo] have idx: "idx = i" by simp
  from idw_mapping_of_flag [OF mo] obtain ns where
    ns: "idw_candidates config (target_points ! i) source_points = Inr ns"
    and fb: "fb \<longleftrightarrow> length ns < size_t_of_int (min_points config)" by blast
  from idw_candidates_spec [OF ns]
  have "length ns = length (filter (admitted config (target_points ! i)) source_points)" by simp
  with fb assms(1,2)
  have flag: "fb \<longleftrightarrow> int (length (filter (admitted config (target_points ! i)) source_points))
                      < min_points config"
    by (simp add: size_t_of_int_nat) linarith
  have fall: "\<exists>k d.
                first_nearest (distance_metric config) (target_points ! i) source_points k d \<and>
                nbrs = [(longitude (gridPoint (source_points ! k)),
                         latitude (gridPoint (source_points ! k)),
                         (if distance_metric config = HAVERSINE then d
                          else d * 111.32 *
                               cos (to_radians (latitude (gridPoint (target_points ! i))))))]"
    if fb
    using idw_mapping_of_fallback [of config source_points "target_points ! i" i tlon tlat nbrs idx]
      mo that unfolding dist_km_def by simp
  show "case ms ! i of (tlon, tlat, nbrs, idx, fb) \<Rightarrow>
            idx = i \<and>
            (fb \<longleftrightarrow> int (length (filter (admitted config (target_points ! i)) source_points))
                      < min_points config) \<and>
            (fb \<longrightarrow> (\<exists>k d.
                first_nearest (distance_metric config) (target_points ! i) source_points k d \<and>
                nbrs = [(longitude (gridPoint (source_points ! k)),
                         latitude (gridPoint (source_points ! k)),
                         (if distance_metric config = HAVERSINE then d
                          else d * 111.32 *
                               cos (to_radians (latitude (gridPoint (target_points ! i))))))]))"
    unfolding m using idx flag fall by simp
qed

theorem idw_fallback_spec_witness:
  "0 \<le> min_points (RegridConfigBuilder\<lparr>distance_metric := EUCLIDEAN, radius := 10,
                        max_points := 2, min_points := 2\<rparr>) \<and>
   min_points (RegridConfigBuilder\<lparr>distance_metric := EUCLIDEAN, radius := 10,
                 max_points := 2, min_points := 2\<rparr>) < 2 ^ 31 \<and>
   find_idw_neighbors
     (RegridConfigBuilder\<lparr>distance_metric := EUCLIDEAN, radius := 10, max_points := 2, min_points := 2\<rparr>)
     [point 0 0 1 [10], point 3 0 1 [20]] [point 1 0 1 [0]]
   = Inr [(1, 0, [(0, 0, 111.32)], 0, True)] \<and>
   filter (admitted (RegridConfigBuilder\<lparr>distance_metric := EUCLIDEAN, radius := 10,
                        max_points := 2, min_points := 2\<rparr>) (point 1 0 1 [0]))
     [point 0 0 1 [10], point 3 0 1 [20]] = [] \<and>
   first_nearest EUCLIDEAN (point 1 0 1 [0]) [point 0 0 1 [10], point 3 0 1 [20]] 0 1"
  using idw_fallback_spec [of
      "RegridConfigBuilder\<lparr>distance_metric := EUCLIDEAN, radius := 10, max_points := 2, min_points := 2\<rparr>"
      "[point 0 0 1 [10], point 3 0 1 [20]]" "[point 1 0 1 [0]]"
      "[(1, 0, [(0, 0, 111.32)], 0, True)]"]
    idw_fallback_example
  by (simp add: RegridConfigBuilder_def admitted_def first_nearest_def no_closer_def farther_def
      target_distance_point_same_lat km_to_degrees_equator)

section \<open>Interpolator\<close>

subsection \<open>The loop over the mappings\<close>

lemma run_mappings_Inr:
  assumes "run_mappings body ms result = Inr r"
  shows "(\<forall>m\<in>set ms. \<not> isl (body m)) \<and>
         r = result @ List.map_filter (\<lambda>m. case body m of Inl e \<Rightarrow> None | Inr out \<Rightarrow> out) ms"
  using assms
proof (induction ms arbitrary: result)
  case Nil
  then show ?case by simp
next
  case (Cons m rest)
  show ?case
  proof (cases "body m")
    case (Inl e)
    with Cons.prems show ?thesis by simp
  next
    case (Inr out)
    show ?thesis
    proof (cases out)
      case None
      with Inr Cons.prems have "run_mappings body rest result = Inr r" by simp
      from Cons.IH [OF this] Inr None show ?thesis by simp
    next
      case (Some v)
      with Inr Cons.prems have "run_mappings body rest (result @ [v]) = Inr r" by simp
      from Cons.IH [OF this] Inr Some show ?thesis by simp
    qed
  qed
qed

lemma run_mappings_ok:
  assumes "\<forall>m\<in>set ms. \<not> isl (body m)"
  shows "run_mappings body ms result =
           Inr (result @ List.map_filter (\<lambda>m. case body m of Inl e \<Rightarrow> None | Inr out \<Rightarrow> out) ms)"
  using assms
proof (induction ms arbitrary: result)
  case Nil
  then show ?case by simp
next
  case (Cons m rest)
  then obtain out where out: "body m = Inr out" by (cases "body m") auto
  show ?case
  proof (cases out)
    case None
    with out Cons show ?thesis by simp
  next
    case (Some v)
    with out Cons show ?thesis by simp
  qed
qed

lemma run_mappings_Inl:
  assumes "run_mappings body ms result = Inl e"
  shows "\<exists>m\<in>set ms. body m = Inl e"
  using assms
proof (induction ms arbitrary: result)
  case Nil
  then show ?case by simp
next
  case (Cons m rest)
  then show ?case by (auto split: sum.splits option.splits)
qed

lemma nearest_neighbor_body_isl:
  "isl (nearest_neighbor_body sp tp (tlon, tlat, slon, slat, d, idx)) \<longleftrightarrow> length tp \<le> idx"
  by (simp add: Let_def)

lemma nearest_neighbor_body_error:
  "nearest_neighbor_body sp tp m = Inl e \<Longrightarrow> e = InvalidTargetIndex"
  by (cases m) (auto simp: Let_def split: if_splits)

lemma idw_body_isl:
  "isl (idw_body sp config tp (tlon, tlat, srcs, idx, fb)) \<longleftrightarrow>
     length tp \<le> idx \<or> (fb \<and> length srcs \<noteq> 1)"
  by (auto simp: Let_def split: prod.splits)

lemma idw_body_error:
  "idw_body sp config tp m = Inl e \<Longrightarrow> e = InvalidTargetIndex \<or> e = InvalidFallbackMapping"
  by (cases m) (auto simp: Let_def split: if_splits prod.splits)

lemma produced_error:
  "produced sp config tp nn idw = Inl e \<Longrightarrow> e = InvalidTargetIndex \<or> e = InvalidFallbackMapping"
  unfolding produced_def
  by (cases "interp_method config")
     (auto dest!: run_mappings_Inl dest: nearest_neighbor_body_error idw_body_error)

lemma interpolate_produced:
  "interpolate sp config tp nn idw =
     (case produced sp config tp nn idw of
        Inl e \<Rightarrow> Inl e
      | Inr result \<Rightarrow>
          if result = [] then Inl (NoInterpolation (interp_method config)) else Inr result)"
  by (cases "interp_method config")
     (simp_all add: interpolate_def produced_def interpolate_nearest_neighbor_def interpolate_idw_def
        split: sum.splits)


subsection \<open>The weighted mean\<close>

lemma collect_sources_resolved:
  "collect_sources sp p target nbrs =
     (map fst (resolved_neighbors sp p (time_step target) nbrs),
      map snd (resolved_neighbors sp p (time_step target) nbrs))"
proof (induction nbrs)
  case Nil
  then show ?case by (simp add: resolved_neighbors_def)
next
  case (Cons n rest)
  obtain slon slat d where n: "n = (slon, slat, d)" by (cases n) auto
  show ?case
  proof (cases "find (\<lambda>src. matches src slon slat (time_step target)) sp")
    case None
    with Cons n show ?thesis
      by (simp add: resolved_neighbors_def)
  next
    case (Some src)
    with Cons n show ?thesis
      by (simp add: resolved_neighbors_def idw_weight_def)
  qed
qed

lemma resolved_neighbors_sources:
  assumes "(w, src) \<in> set (resolved_neighbors sp p t nbrs)"
  shows "src \<in> set sp \<and> 0 < w"
  using assms
proof (induction nbrs)
  case Nil
  then show ?case by (simp add: resolved_neighbors_def)
next
  case (Cons n rest)
  obtain slon slat d where n: "n = (slon, slat, d)" by (cases n) auto
  show ?case
  proof (cases "find (\<lambda>src. matches src slon slat t) sp")
    case None
    with Cons n show ?thesis
      by (simp add: resolved_neighbors_def)
  next
    case (Some s)
    then have "s \<in> set sp" by (auto simp: find_Some_iff)
    moreover have "0 < (if d > 1 / 10 ^ 6 then 1 / (d powr p) else (10 ^ 6 :: real))" by simp
    ultimately show ?thesis
      using Cons n Some
      by (auto simp: resolved_neighbors_def)
  qed
qed

lemma accumulate_sums:
  "accumulate (map fst R) (map snd R) (weight_sum, acc) =
     (weight_sum + (\<Sum>(w, src) \<leftarrow> R. w),
      map (\<lambda>j. acc ! j + (\<Sum>(w, src) \<leftarrow> R. w * vals src ! j)) [0..<length acc])"
proof (induction R arbitrary: weight_sum acc)
  case Nil
  then show ?case by (simp add: map_nth)
next
  case (Cons a R)
  obtain w src where a: "a = (w, src)" by (cases a) auto
  show ?case
    unfolding a by (simp add: Cons.IH add.assoc)
qed

lemma weights_sum_pos:
  assumes "R \<noteq> []" "\<forall>(w, src)\<in>set R. 0 < (w::real)"
  shows "0 < (\<Sum>(w, src) \<leftarrow> R. w)"
  using assms
proof (induction R)
  case Nil
  then show ?case by simp
next
  case (Cons a R)
  then have "0 \<le> (\<Sum>(w, src) \<leftarrow> R. w)"
    by (cases "R = []") (auto simp: less_imp_le)
  with Cons.prems show ?case by (auto simp: add_pos_nonneg)
qed

lemma Interpolator_Inr:
  assumes "Interpolator sp config = Inr x"
  shows "sp \<noteq> [] \<and> (\<forall>s\<in>set sp. length (vals s) = length (vals (sp ! 0)))"
proof -
  have ne: "sp \<noteq> []"
    using assms unfolding Interpolator_def by (cases "sp = []") simp_all
  have "\<not> list_ex (\<lambda>point. length (vals point) \<noteq> length (vals (sp ! 0))) sp"
  proof
    assume "list_ex (\<lambda>point. length (vals point) \<noteq> length (vals (sp ! 0))) sp"
    with ne have "Interpolator sp config = Inl InconsistentValueSizes"
      unfolding Interpolator_def by (simp only: if_False if_True)
    with assms show False by simp
  qed
  then have "\<forall>s\<in>set sp. length (vals s) = length (vals (sp ! 0))"
    unfolding list_ex_iff by blast
  with ne show ?thesis by blast
qed


lemma Interpolator_example:
  "Interpolator [point 0 0 1 [10], point 2 0 1 [20]] RegridConfigBuilder
     = Inr ([point 0 0 1 [10], point 2 0 1 [20]], RegridConfigBuilder)"
  by (simp add: Interpolator_def)


lemma idw_body_non_fallback:
  assumes "Interpolator source_points config = Inr x" "target_idx < length target_points"
  shows
    "idw_body source_points config target_points (tlon, tlat, neighbors, target_idx, False) =
       (let resolved = resolved_neighbors source_points (idw_power config)
                         (time_step (target_points ! target_idx)) neighbors
        in if resolved = [] then Inr None
           else Inr (Some ((target_points ! target_idx)
                  \<lparr>vals := map (weighted_mean resolved) [0..<length (vals (source_points ! 0))]\<rparr>)))"
proof -
  define target where "target = target_points ! target_idx"
  define R where "R = resolved_neighbors source_points (idw_power config) (time_step target) neighbors"
  have src: "\<forall>(w, src)\<in>set R. src \<in> set source_points \<and> 0 < w"
    unfolding R_def using resolved_neighbors_sources by fastforce
  show ?thesis
  proof (cases "R = []")
    case True
    then show ?thesis
      using assms(2) by (simp add: collect_sources_resolved R_def target_def Let_def)
  next
    case False
    then obtain w0 s0 R' where R: "R = (w0, s0) # R'" by (cases R) auto
    with src have "s0 \<in> set source_points" by simp
    then have "length (vals s0) = length (vals (source_points ! 0))"
      using Interpolator_Inr [OF assms(1)] by blast
    then have len: "length (vals (map snd R ! 0)) = length (vals (source_points ! 0))"
      unfolding R by simp
    have "map (\<lambda>v. v / (0 + (\<Sum>(w, src) \<leftarrow> R. w)))
            (map (\<lambda>j. replicate (length (vals (source_points ! 0))) 0 ! j
                        + (\<Sum>(w, src) \<leftarrow> R. w * vals src ! j))
               [0..<length (replicate (length (vals (source_points ! 0))) (0::real))])
          = map (weighted_mean R) [0..<length (vals (source_points ! 0))]"
      by (simp add: weighted_mean_def)
    then show ?thesis
      using assms(2) False len
      by (simp add: collect_sources_resolved R_def [symmetric] target_def [symmetric] Let_def
          accumulate_sums)
  qed
qed

lemma resolved_weights_pos:
  assumes "resolved_neighbors sp p t nbrs \<noteq> []"
  shows "0 < (\<Sum>(w, src) \<leftarrow> resolved_neighbors sp p t nbrs. w)"
proof -
  have "\<forall>(w, src)\<in>set (resolved_neighbors sp p t nbrs). 0 < w"
    using resolved_neighbors_sources by fastforce
  with assms show ?thesis by (rule weights_sum_pos)
qed

lemma interpolate_idw_Inr:
  assumes "interpolate_idw sp config tp mappings = Inr r"
  shows "r = List.map_filter
              (\<lambda>mapping. case idw_body sp config tp mapping of Inl e \<Rightarrow> None | Inr out \<Rightarrow> out)
              mappings"
proof -
  from assms have "run_mappings (idw_body sp config tp) mappings [] = Inr r"
    by (auto simp: interpolate_idw_def split: sum.splits if_splits)
  from run_mappings_Inr [OF this] show ?thesis by simp
qed

text \<open>
  Claim C4.  Let the interpolator be constructed (the source list is non-empty and all value
  vectors have one length) and let a mapping with \<open>is_fallback = false\<close> name a target
  inside the target list.  Its neighbours are resolved in order, each to the first source
  record within \<open>1e-6\<close> in longitude and latitude and with the target's time step; a
  resolved neighbour at distance \<open>d\<close> has weight \<open>1 / d powr power\<close> if \<open>d > 1e-6\<close> and
  \<open>1e6\<close> otherwise, an unresolved one is skipped.  With no resolved neighbour the loop
  body appends nothing.  Otherwise it appends the target with the value vector
  \<open>[weighted_mean resolved j. j < n]\<close>, where \<open>n\<close> is the common length of the source value
  vectors and \<open>weighted_mean resolved j\<close> is
  \<open>(\<Sum>\<^sub>i w\<^sub>i * source\<^sub>i.values[j]) / (\<Sum>\<^sub>i w\<^sub>i)\<close>; the sum of the weights is
  positive.  The output of \<open>interpolate_idw\<close>, when it returns, is what the loop bodies
  appended, in mapping order.
\<close>

theorem idw_body_weighted_mean:
  assumes "Interpolator source_points config = Inr x" "target_idx < length target_points"
  shows
    "idw_body source_points config target_points (tlon, tlat, neighbors, target_idx, False) =
       (let resolved = resolved_neighbors source_points (idw_power config)
                         (time_step (target_points ! target_idx)) neighbors
        in if resolved = [] then Inr None
           else Inr (Some ((target_points ! target_idx)
                  \<lparr>vals := map (weighted_mean resolved) [0..<length (vals (source_points ! 0))]\<rparr>))) \<and>
     (resolved_neighbors source_points (idw_power config)
        (time_step (target_points ! target_idx)) neighbors \<noteq> [] \<longrightarrow>
      0 < (\<Sum>(w, src) \<leftarrow> resolved_neighbors source_points (idw_power config)
                            (time_step (target_points ! target_idx)) neighbors. w)) \<and>
     (\<forall>mappings r. interpolate_idw source_points config target_points mappings = Inr r \<longrightarrow>
        r = List.map_filter
              (\<lambda>mapping. case idw_body source_points config target_points mapping of
                            Inl e \<Rightarrow> None | Inr out \<Rightarrow> out) mappings)"
  using idw_body_non_fallback [OF assms] resolved_weights_pos interpolate_idw_Inr
  by blast

theorem idw_body_weighted_mean_witness:
  "Interpolator [point 0 0 1 [10], point 2 0 1 [20]] RegridConfigBuilder
     = Inr ([point 0 0 1 [10], point 2 0 1 [20]], RegridConfigBuilder) \<and>
   (0::nat) < length [point 1 0 1 [0]] \<and>
   idw_body [point 0 0 1 [10], point 2 0 1 [20]] RegridConfigBuilder [point 1 0 1 [0]]
     (1, 0, [(0, 0, 111.32), (2, 0, 111.32)], 0, False)
   = Inr (Some (point 1 0 1 [15]))"
proof -
  have l: "(0::nat) < length [point 1 0 1 [0]]" by simp
  have "idw_body [point 0 0 1 [10], point 2 0 1 [20]] RegridConfigBuilder [point 1 0 1 [0]]
          (1, 0, [(0, 0, 111.32), (2, 0, 111.32)], 0, False)
        = Inr (Some (point 1 0 1 [15]))"
    by (subst conjunct1 [OF idw_body_weighted_mean [OF Interpolator_example l]])
       (simp add: resolved_neighbors_def matches_def weighted_mean_def
          RegridConfigBuilder_def point_def)
  with Interpolator_example l show ?thesis by simp
qed


text \<open>
  Claim C5.  \<open>interpolate\<close> raises \<open>NoInterpolation\<close> exactly when the loop of the
  configured method ends with an empty result vector, and it returns exactly the
  non-empty result vectors.  A mapping whose source is not resolved does not abort the
  loop: when every NN mapping names a target inside the target list, the result vector
  holds exactly the targets whose source was resolved, in mapping order; likewise in IDW
  mode when every mapping names a target inside the list and every fallback mapping has
  one neighbour.
\<close>

theorem interpolate_no_interpolation:
  "(interpolate sp config tp nn idw = Inl (NoInterpolation m) \<longleftrightarrow>
      m = interp_method config \<and> produced sp config tp nn idw = Inr []) \<and>
   (interpolate sp config tp nn idw = Inr r \<longleftrightarrow>
      r \<noteq> [] \<and> produced sp config tp nn idw = Inr r) \<and>
   (interp_method config = NEAREST_NEIGHBOR \<and>
    list_all (\<lambda>(tlon, tlat, slon, slat, d, idx). idx < length tp) nn \<longrightarrow>
      produced sp config tp nn idw =
        Inr (List.map_filter
               (\<lambda>(tlon, tlat, slon, slat, d, idx).
                  find_and_copy_source_values sp (tp ! idx) slon slat (tp ! idx)) nn)) \<and>
   (interp_method config = INVERSE_DISTANCE_WEIGHTED \<and>
    list_all (\<lambda>(tlon, tlat, srcs, idx, fb). idx < length tp \<and> (fb \<longrightarrow> length srcs = 1)) idw \<longrightarrow>
      produced sp config tp nn idw =
        Inr (List.map_filter
               (\<lambda>mapping. case idw_body sp config tp mapping of Inl e \<Rightarrow> None | Inr out \<Rightarrow> out)
               idw))"
proof (intro conjI impI)
  show "interpolate sp config tp nn idw = Inl (NoInterpolation m) \<longleftrightarrow>
      m = interp_method config \<and> produced sp config tp nn idw = Inr []"
    using produced_error [of sp config tp nn idw]
    by (auto simp: interpolate_produced split: sum.splits if_splits)
  show "interpolate sp config tp nn idw = Inr r \<longleftrightarrow>
      r \<noteq> [] \<and> produced sp config tp nn idw = Inr r"
    by (auto simp: interpolate_produced split: sum.splits if_splits)
next
  assume h: "interp_method config = NEAREST_NEIGHBOR \<and>
    list_all (\<lambda>(tlon, tlat, slon, slat, d, idx). idx < length tp) nn"
  then have ok: "\<forall>m\<in>set nn. \<not> isl (nearest_neighbor_body sp tp m)"
    by (auto simp: list_all_iff nearest_neighbor_body_isl simp del: nearest_neighbor_body.simps)
  have "List.map_filter
          (\<lambda>m. case nearest_neighbor_body sp tp m of Inl e \<Rightarrow> None | Inr out \<Rightarrow> out) nn
        = List.map_filter
               (\<lambda>(tlon, tlat, slon, slat, d, idx).
                  find_and_copy_source_values sp (tp ! idx) slon slat (tp ! idx)) nn"
    using h unfolding List.map_filter_def
    by (intro arg_cong2 [where f = map] filter_cong map_cong refl)
       (auto simp: list_all_iff Let_def)
  then show "produced sp config tp nn idw =
        Inr (List.map_filter
               (\<lambda>(tlon, tlat, slon, slat, d, idx).
                  find_and_copy_source_values sp (tp ! idx) slon slat (tp ! idx)) nn)"
    using h run_mappings_ok [OF ok, of "[]"] by (simp add: produced_def)
next
  assume h: "interp_method config = INVERSE_DISTANCE_WEIGHTED \<and>
    list_all (\<lambda>(tlon, tlat, srcs, idx, fb). idx < length tp \<and> (fb \<longrightarrow> length srcs = 1)) idw"
  then have ok: "\<forall>m\<in>set idw. \<not> isl (idw_body sp config tp m)"
    by (auto simp: list_all_iff idw_body_isl simp del: idw_body.simps)
  show "produced sp config tp nn idw =
        Inr (List.map_filter
               (\<lambda>mapping. case idw_body sp config tp mapping of Inl e \<Rightarrow> None | Inr out \<Rightarrow> out)
               idw)"
    using h run_mappings_ok [OF ok, of "[]"] by (simp add: produced_def)
qed

theorem interpolate_no_interpolation_witness:
  "interpolate [point 0 0 2000 [7]] (RegridConfigBuilder\<lparr>interp_method := NEAREST_NEIGHBOR\<rparr>)
     [point 0 0 2001 [0]] [(0, 0, 0, 0, 0, 0)] []
   = Inl (NoInterpolation NEAREST_NEIGHBOR) \<and>
   interpolate [point 0 0 2000 [7]] (RegridConfigBuilder\<lparr>interp_method := NEAREST_NEIGHBOR\<rparr>)
     [point 0 0 2001 [0], point 0 0 2000 [0]] [(0, 0, 0, 0, 0, 0), (0, 0, 0, 0, 0, 1)] []
   = Inr [point 0 0 2000 [7]] \<and>
   interpolate [point 0 0 2000 [7]] RegridConfigBuilder
     [point 0 0 2001 [0], point 0 0 2000 [0]] []
     [(0, 0, [(0, 0, 0)], 0, False), (0, 0, [(0, 0, 0)], 1, True)]
   = Inr [point 0 0 2000 [7]]"
proof -
  have a: "produced [point 0 0 2000 [7]] (RegridConfigBuilder\<lparr>interp_method := NEAREST_NEIGHBOR\<rparr>)
     [point 0 0 2001 [0]] [(0, 0, 0, 0, 0, 0)] [] = Inr []"
    by (simp add: produced_def find_and_copy_source_values_def matches_def)
  have b: "produced [point 0 0 2000 [7]] (RegridConfigBuilder\<lparr>interp_method := NEAREST_NEIGHBOR\<rparr>)
     [point 0 0 2001 [0], point 0 0 2000 [0]] [(0, 0, 0, 0, 0, 0), (0, 0, 0, 0, 0, 1)] []
     = Inr [point 0 0 2000 [7]]"
    by (simp add: produced_def find_and_copy_source_values_def matches_def point_def)
  have c: "produced [point 0 0 2000 [7]] RegridConfigBuilder
     [point 0 0 2001 [0], point 0 0 2000 [0]] []
     [(0, 0, [(0, 0, 0)], 0, False), (0, 0, [(0, 0, 0)], 1, True)]
     = Inr [point 0 0 2000 [7]]"
    by (simp add: produced_def find_and_copy_source_values_def matches_def point_def
        RegridConfigBuilder_def)
  show ?thesis
    using interpolate_no_interpolation [of "[point 0 0 2000 [7]]"
        "RegridConfigBuilder\<lparr>interp_method := NEAREST_NEIGHBOR\<rparr>" "[point 0 0 2001 [0]]"
        "[(0, 0, 0, 0, 0, 0)]" "[]" NEAREST_NEIGHBOR "[]"]
      interpolate_no_interpolation [of "[point 0 0 2000 [7]]"
        "RegridConfigBuilder\<lparr>interp_method := NEAREST_NEIGHBOR\<rparr>"
        "[point 0 0 2001 [0], point 0 0 2000 [0]]"
        "[(0, 0, 0, 0, 0, 0), (0, 0, 0, 0, 0, 1)]" "[]" NEAREST_NEIGHBOR "[point 0 0 2000 [7]]"]
      interpolate_no_interpolation [of "[point 0 0 2000 [7]]" RegridConfigBuilder
        "[point 0 0 2001 [0], point 0 0 2000 [0]]" "[]"
        "[(0, 0, [(0, 0, 0)], 0, False), (0, 0, [(0, 0, 0)], 1, True)]"
        INVERSE_DISTANCE_WEIGHTED "[point 0 0 2000 [7]]"]
      a b c
    by (simp add: RegridConfigBuilder_def)
qed

section \<open>Round trip: the sources as their own targets\<close>

subsection \<open>Distance zero\<close>












subsection \<open>The coincident source in an IDW mapping\<close>















subsection \<open>Concrete round trips\<close>










end
